theory Spec2Isabelle
  imports Complex_Main "HOL-Library.AList"
begin

section \<open>Python values, errors and containers\<close>

text \<open>
  The plugin \<^verbatim>\<open>replay_bot.py\<close> is modelled over an explicit world: one heap per
  class of mutable object (addresses are natural numbers, \<open>next_ref\<close> is the next free
  address), the module-level \<^verbatim>\<open>recording_mgr\<close> with its list content and its two
  dictionaries, the state of the hosting game server, and a trace of the calls made.
  Python floats are modelled as reals. An exception is a value \<open>Inl e\<close>; the world
  reached when it was raised is returned next to it, since Python undoes nothing.
  Objects are never freed, so \<^verbatim>\<open>Player.__del__\<close>, which the garbage collector runs,
  has no counterpart here; the host's reads are taken not to raise.
\<close>

datatype error =
    ValueError string
  | TypeError
  | IndexError
  | AttributeError
  | KeyError

type_synonym Vector = "real \<times> real \<times> real"
type_synonym QAngle = "real \<times> real \<times> real"

text \<open>
  \<^verbatim>\<open>Vector.get_distance_sqr\<close> belongs to the host library (Source.Python's mathlib): the
  squared Euclidean distance of two points.
\<close>

definition get_distance_sqr :: "Vector \<Rightarrow> Vector \<Rightarrow> real" where
  "get_distance_sqr a b =
     (case a of (ax, ay, az) \<Rightarrow> case b of (bx, by', bz) \<Rightarrow>
        (ax - bx) * (ax - bx) + (ay - by') * (ay - by') + (az - bz) * (az - bz))"

text \<open>
  Subscription of a Python list, \<^verbatim>\<open>xs[i]\<close>: an index from \<open>-len\<close> up to \<open>-1\<close>
  addresses the list from its end, any index outside \<open>-len .. len - 1\<close> raises.
\<close>

definition py_getitem :: "'a list \<Rightarrow> int \<Rightarrow> error + 'a" where
  "py_getitem xs i =
     (if 0 \<le> i \<and> i < int (length xs) then Inr (xs ! nat i)
      else if i < 0 \<and> - int (length xs) \<le> i then Inr (xs ! nat (int (length xs) + i))
      else Inl IndexError)"

text \<open>
  Python dictionaries keep insertion order: \<^verbatim>\<open>d[k] = v\<close> replaces the value in place
  when the key exists and appends the pair otherwise (\<^const>\<open>AList.update\<close>),
  \<^verbatim>\<open>del d[k]\<close> is \<^const>\<open>AList.delete\<close>, \<^verbatim>\<open>d.values()\<close> is \<open>map snd\<close>.
\<close>

type_synonym ('k, 'v) dict = "('k \<times> 'v) list"

definition dict_values :: "('k, 'v) dict \<Rightarrow> 'v list" where
  "dict_values d = map snd d"

section \<open>Data model\<close>

record UserCmd =
  u_command_number :: int
  u_tick_count :: int
  u_view_angles :: QAngle
  u_forward_move :: real
  u_side_move :: real
  u_up_move :: real
  u_buttons :: int
  u_impulse :: int
  u_weaponselect :: int
  u_weaponsubtype :: int
  u_random_seed :: int
  u_mousedx :: int
  u_mousedy :: int
  u_has_been_predicted :: bool

record BotCmd =
  command_number :: int
  tick_count :: int
  view_angles :: QAngle
  forward_move :: real
  side_move :: real
  up_move :: real
  buttons :: int
  impulse :: int
  weaponselect :: int
  weaponsubtype :: int
  random_seed :: int
  mousedx :: int
  mousedy :: int
  has_been_predicted :: bool

record Snapshot =
  origin :: Vector
  angle :: QAngle
  velocity :: Vector
  bcmd :: BotCmd

record PlayerData =
  name :: string
  steamid :: string
  team :: int

text \<open>
  \<^verbatim>\<open>class Recording(list)\<close>: the list content is \<open>snapshots\<close>, a list of addresses
  of Snapshot objects; the other fields are the attributes set by \<^verbatim>\<open>__init__\<close>.
\<close>

record Recording =
  creation_time :: real
  game :: string
  map_name :: string
  tick_interval :: real
  player :: PlayerData
  snapshots :: "nat list"

datatype PlayerState = PAUSED | PLAYING | STOPPED

record Player =
  tick :: int
  recording :: nat
  state :: PlayerState
  controller :: nat
  replay_bot :: nat
  adjust :: bool

datatype RecorderState = PAUSED | RECORDING | STOPPED

record Recorder =
  rec_player :: nat
  rec_state :: RecorderState
  rec_recording :: "nat option"

section \<open>The host and the world\<close>

text \<open>
  Everything the plugin asks of the game server, over an arbitrary host state \<open>'h\<close>:
  reads return a value, commands return the next host state. Entities (clients and
  bots) are named by their index, bot controllers and edicts by a handle.
\<close>

record 'h Host =
  time_time :: "'h \<Rightarrow> real"
  SOURCE_ENGINE_BRANCH :: string
  global_map_name :: "'h \<Rightarrow> string"
  server_tick_interval :: "'h \<Rightarrow> real"
  ent_name :: "nat \<Rightarrow> 'h \<Rightarrow> string"
  ent_steamid :: "nat \<Rightarrow> 'h \<Rightarrow> string"
  ent_team :: "nat \<Rightarrow> 'h \<Rightarrow> int"
  ent_origin :: "nat \<Rightarrow> 'h \<Rightarrow> Vector"
  ent_angles :: "nat \<Rightarrow> 'h \<Rightarrow> QAngle"
  ent_velocity :: "nat \<Rightarrow> 'h \<Rightarrow> Vector"
  last_user_command :: "nat \<Rightarrow> 'h \<Rightarrow> UserCmd"
  run_player_move :: "nat \<Rightarrow> BotCmd \<Rightarrow> 'h \<Rightarrow> 'h"
  teleport :: "nat \<Rightarrow> Vector \<Rightarrow> QAngle \<Rightarrow> Vector \<Rightarrow> 'h \<Rightarrow> 'h"
  set_team :: "nat \<Rightarrow> int \<Rightarrow> 'h \<Rightarrow> 'h"
  spawn :: "nat \<Rightarrow> 'h \<Rightarrow> 'h"
  create_bot :: "string \<Rightarrow> 'h \<Rightarrow> nat option \<times> 'h"
  get_bot_controller :: "nat \<Rightarrow> 'h \<Rightarrow> nat option"
  index_from_edict :: "nat \<Rightarrow> nat"

text \<open>
  The trace records, in order, every command sent to the host and every
  \<^verbatim>\<open>handle_tick\<close> call issued by the tick listener.
\<close>

datatype event =
    RunPlayerMove nat BotCmd
  | Teleport nat Vector QAngle Vector
  | SetTeam nat int
  | Spawn nat
  | CreateBot string
  | GetBotController nat
  | RecorderTick nat
  | PlayerTick nat

record 'h world =
  host :: 'h
  trace :: "event list"
  snapshot_heap :: "nat \<Rightarrow> Snapshot"
  recording_heap :: "nat \<Rightarrow> Recording"
  recorder_heap :: "nat \<Rightarrow> Recorder"
  player_heap :: "nat \<Rightarrow> Player"
  next_ref :: nat
  mgr :: "nat list"
  recorders :: "(nat, nat) dict"
  players :: "(nat, nat) dict"

type_synonym ('a, 'h) result = "(error + 'a) \<times> 'h world"

section \<open>Snapshot\<close>

definition replay_bcmd :: "'h Host \<Rightarrow> Snapshot \<Rightarrow> nat \<Rightarrow> 'h world \<Rightarrow> 'h world" where
  "replay_bcmd H s c w =
     w\<lparr>host := run_player_move H c (bcmd s) (host w),
       trace := trace w @ [RunPlayerMove c (bcmd s)]\<rparr>"

definition replay_location :: "'h Host \<Rightarrow> Snapshot \<Rightarrow> nat \<Rightarrow> 'h world \<Rightarrow> 'h world" where
  "replay_location H s b w =
     w\<lparr>host := teleport H b (origin s) (angle s) (velocity s) (host w),
       trace := trace w @ [Teleport b (origin s) (angle s) (velocity s)]\<rparr>"

section \<open>Recording\<close>

definition Recording_init :: "'h Host \<Rightarrow> nat \<Rightarrow> 'h world \<Rightarrow> nat \<times> 'h world" where
  "Recording_init H p w =
     (let r = next_ref w;
          new = \<lparr>creation_time = time_time H (host w),
                 game = SOURCE_ENGINE_BRANCH H,
                 map_name = global_map_name H (host w),
                 tick_interval = server_tick_interval H (host w),
                 player = \<lparr>name = ent_name H p (host w),
                            steamid = ent_steamid H p (host w),
                            team = ent_team H p (host w)\<rparr>,
                 snapshots = []\<rparr>
      in (r, w\<lparr>recording_heap := (recording_heap w)(r := new), next_ref := Suc r\<rparr>))"

definition is_playable :: "Recording \<Rightarrow> bool" where
  "is_playable r = (int (length (snapshots r)) > 0)"

definition duration :: "Recording \<Rightarrow> real" where
  "duration r = real (length (snapshots r)) * tick_interval r"

definition create_bcmd_from_ucmd :: "UserCmd \<Rightarrow> BotCmd" where
  "create_bcmd_from_ucmd ucmd =
     \<lparr>command_number = u_command_number ucmd,
      tick_count = u_tick_count ucmd,
      view_angles = u_view_angles ucmd,
      forward_move = u_forward_move ucmd,
      side_move = u_side_move ucmd,
      up_move = u_up_move ucmd,
      buttons = u_buttons ucmd,
      impulse = u_impulse ucmd,
      weaponselect = u_weaponselect ucmd,
      weaponsubtype = u_weaponsubtype ucmd,
      random_seed = u_random_seed ucmd,
      mousedx = u_mousedx ucmd,
      mousedy = u_mousedy ucmd,
      has_been_predicted = u_has_been_predicted ucmd\<rparr>"

definition create_snapshot :: "'h Host \<Rightarrow> nat \<Rightarrow> 'h world \<Rightarrow> Snapshot" where
  "create_snapshot H p w =
     \<lparr>origin = ent_origin H p (host w),
      angle = ent_angles H p (host w),
      velocity = ent_velocity H p (host w),
      bcmd = create_bcmd_from_ucmd (last_user_command H p (host w))\<rparr>"

definition add_snapshot :: "'h Host \<Rightarrow> nat \<Rightarrow> nat \<Rightarrow> 'h world \<Rightarrow> 'h world" where
  "add_snapshot H r p w =
     (let s = next_ref w;
          old = recording_heap w r
      in w\<lparr>snapshot_heap := (snapshot_heap w)(s := create_snapshot H p w),
            recording_heap := (recording_heap w)(r := old\<lparr>snapshots := snapshots old @ [s]\<rparr>),
            next_ref := Suc s\<rparr>)"

text \<open>
  Comparison and membership as Python's list implementation does them. Recording defines
  no \<^verbatim>\<open>__eq__\<close>, so \<^verbatim>\<open>a == b\<close> is \<^verbatim>\<open>list.__eq__\<close>: same length and pairwise
  equal items; a Snapshot defines no \<^verbatim>\<open>__eq__\<close> either, so two items are equal exactly
  when they are the same object. \<^verbatim>\<open>x in xs\<close> holds when some item is \<^verbatim>\<open>x\<close> itself or
  compares equal to it.
\<close>

definition Recording_eq :: "'h world \<Rightarrow> nat \<Rightarrow> nat \<Rightarrow> bool" where
  "Recording_eq w a b = (snapshots (recording_heap w a) = snapshots (recording_heap w b))"

definition Recording_in_mgr :: "'h world \<Rightarrow> nat \<Rightarrow> bool" where
  "Recording_in_mgr w x = list_ex (\<lambda>e. e = x \<or> Recording_eq w e x) (mgr w)"

section \<open>Player\<close>

definition Player_init :: "nat \<Rightarrow> nat \<Rightarrow> nat \<Rightarrow> bool \<Rightarrow> 'h world \<Rightarrow> nat \<times> 'h world" where
  "Player_init rec c rbot adj w =
     (let p = next_ref w;
          new = \<lparr>tick = 0, recording = rec, state = PlayerState.PAUSED,
                 controller = c, replay_bot = rbot, adjust = adj\<rparr>
      in (p, w\<lparr>player_heap := (player_heap w)(p := new), next_ref := Suc p\<rparr>))"

definition Player_update :: "nat \<Rightarrow> (Player \<Rightarrow> Player) \<Rightarrow> 'h world \<Rightarrow> 'h world" where
  "Player_update p f w = w\<lparr>player_heap := (player_heap w)(p := f (player_heap w p))\<rparr>"

definition Player_resume :: "nat \<Rightarrow> 'h world \<Rightarrow> 'h world" where
  "Player_resume p w = Player_update p (\<lambda>P. P\<lparr>state := PLAYING\<rparr>) w"

definition Player_pause :: "nat \<Rightarrow> 'h world \<Rightarrow> 'h world" where
  "Player_pause p w = Player_update p (\<lambda>P. P\<lparr>state := PlayerState.PAUSED\<rparr>) w"

definition Player_start :: "'h Host \<Rightarrow> nat \<Rightarrow> 'h world \<Rightarrow> 'h world" where
  "Player_start H p w =
     (let w1 = Player_update p (\<lambda>P. P\<lparr>tick := 0\<rparr>) w;
          P = player_heap w1 p;
          t = team (player (recording_heap w1 (recording P)));
          w2 = w1\<lparr>host := set_team H (replay_bot P) t (host w1),
                  trace := trace w1 @ [SetTeam (replay_bot P) t]\<rparr>;
          w3 = w2\<lparr>host := spawn H (replay_bot P) (host w2),
                  trace := trace w2 @ [Spawn (replay_bot P)]\<rparr>
      in Player_resume p w3)"

definition Player_stop :: "nat \<Rightarrow> 'h world \<Rightarrow> 'h world" where
  "Player_stop p w =
     Player_update p
       (\<lambda>P. P\<lparr>tick := int (length (snapshots (recording_heap w (recording P)))) - 1,
              state := PlayerState.STOPPED\<rparr>) w"

definition played_time :: "'h world \<Rightarrow> nat \<Rightarrow> real" where
  "played_time w p =
     (let P = player_heap w p in real_of_int (tick P) * tick_interval (recording_heap w (recording P)))"

text \<open>
  \<^verbatim>\<open>remaining_time\<close> evaluates \<^verbatim>\<open>self.recording.duration - self.played_time\<close>.
  \<^verbatim>\<open>duration\<close> is declared with \<^verbatim>\<open>@property\<close>, so the left operand is a float;
  \<^verbatim>\<open>played_time\<close> is a plain method and is not called, so the right operand is the
  bound method object. The operands of the subtraction are therefore kept as Python
  values, and \<open>py_sub\<close> is Python's binary minus on them.
\<close>

datatype pyval = PyFloat real | PyBoundMethod string

fun py_sub :: "pyval \<Rightarrow> pyval \<Rightarrow> error + pyval" where
  "py_sub (PyFloat a) (PyFloat b) = Inr (PyFloat (a - b))"
| "py_sub _ _ = Inl TypeError"

definition remaining_time :: "'h world \<Rightarrow> nat \<Rightarrow> error + pyval" where
  "remaining_time w p =
     (let P = player_heap w p
      in py_sub (PyFloat (duration (recording_heap w (recording P))))
                (PyBoundMethod ''played_time''))"

definition Player_handle_tick :: "'h Host \<Rightarrow> nat \<Rightarrow> 'h world \<Rightarrow> (unit, 'h) result" where
  "Player_handle_tick H p w =
     (let P = player_heap w p;
          rec = recording_heap w (recording P)
      in if state P \<noteq> PLAYING then (Inr (), w)
         else case py_getitem (snapshots rec) (tick P) of
             Inl e \<Rightarrow> (Inl e, w)
           | Inr sref \<Rightarrow>
               (let snapshot = snapshot_heap w sref;
                    w1 = replay_bcmd H snapshot (controller P) w;
                    w2 = (if tick P = 0 \<or>
                             (adjust P \<and>
                              get_distance_sqr (ent_origin H (replay_bot P) (host w1))
                                (origin snapshot) > 2500)
                          then replay_location H snapshot (replay_bot P) w1
                          else w1)
                in if tick P < int (length (snapshots rec)) - 1
                   then (Inr (), Player_update p (\<lambda>P. P\<lparr>tick := tick P + 1\<rparr>) w2)
                   else (Inr (), Player_update p (\<lambda>P. P\<lparr>state := PlayerState.STOPPED\<rparr>) w2)))"

section \<open>Recorder\<close>

definition Recorder_init :: "nat \<Rightarrow> 'h world \<Rightarrow> nat \<times> 'h world" where
  "Recorder_init idx w =
     (let r = next_ref w;
          new = \<lparr>rec_player = idx, rec_state = RecorderState.PAUSED, rec_recording = None\<rparr>
      in (r, w\<lparr>recorder_heap := (recorder_heap w)(r := new), next_ref := Suc r\<rparr>))"

definition Recorder_update :: "nat \<Rightarrow> (Recorder \<Rightarrow> Recorder) \<Rightarrow> 'h world \<Rightarrow> 'h world" where
  "Recorder_update r f w = w\<lparr>recorder_heap := (recorder_heap w)(r := f (recorder_heap w r))\<rparr>"

definition Recorder_start :: "'h Host \<Rightarrow> nat \<Rightarrow> 'h world \<Rightarrow> 'h world" where
  "Recorder_start H r w =
     (case Recording_init H (rec_player (recorder_heap w r)) w of
        (new, w1) \<Rightarrow>
          Recorder_update r (\<lambda>R. R\<lparr>rec_state := RECORDING\<rparr>)
            (Recorder_update r (\<lambda>R. R\<lparr>rec_recording := Some new\<rparr>) w1))"

definition Recorder_pause :: "nat \<Rightarrow> 'h world \<Rightarrow> (unit, 'h) result" where
  "Recorder_pause r w =
     (if rec_state (recorder_heap w r) = RecorderState.STOPPED
      then (Inl (ValueError ''Recorder is stopped.''), w)
      else (Inr (), Recorder_update r (\<lambda>R. R\<lparr>rec_state := RecorderState.PAUSED\<rparr>) w))"

definition Recorder_resume :: "nat \<Rightarrow> 'h world \<Rightarrow> (unit, 'h) result" where
  "Recorder_resume r w =
     (if rec_state (recorder_heap w r) = RecorderState.STOPPED
      then (Inl (ValueError ''Recorder is stopped.''), w)
      else (Inr (), Recorder_update r (\<lambda>R. R\<lparr>rec_state := RECORDING\<rparr>) w))"

definition Recorder_stop :: "bool \<Rightarrow> nat \<Rightarrow> 'h world \<Rightarrow> 'h world" where
  "Recorder_stop save r w =
     (let w1 = Recorder_update r (\<lambda>R. R\<lparr>rec_state := RecorderState.STOPPED\<rparr>) w
      in case rec_recording (recorder_heap w1 r) of
           None \<Rightarrow> w1
         | Some cur \<Rightarrow>
             if save \<and> \<not> Recording_in_mgr w1 cur
             then w1\<lparr>mgr := mgr w1 @ [cur]\<rparr>
             else w1)"

definition Recorder_handle_tick :: "'h Host \<Rightarrow> nat \<Rightarrow> 'h world \<Rightarrow> (unit, 'h) result" where
  "Recorder_handle_tick H r w =
     (let R = recorder_heap w r
      in if rec_state R \<noteq> RECORDING then (Inr (), w)
         else case rec_recording R of
             None \<Rightarrow> (Inl AttributeError, w)
           | Some cur \<Rightarrow> (Inr (), add_snapshot H cur (rec_player R) w))"

section \<open>RecordingManager\<close>

definition remove_player :: "nat \<Rightarrow> 'h world \<Rightarrow> 'h world" where
  "remove_player index w =
     (case map_of (players w) index of
        None \<Rightarrow> w
      | Some p \<Rightarrow>
          (let w1 = Player_stop p w
           in w1\<lparr>players := AList.delete index (players w1)\<rparr>))"

definition create_replay_bot_name :: "'h world \<Rightarrow> nat \<Rightarrow> string" where
  "create_replay_bot_name w rec = name (player (recording_heap w rec)) @ '' (Replay Bot)''"

definition create_player ::
  "'h Host \<Rightarrow> nat \<Rightarrow> string option \<Rightarrow> bool \<Rightarrow> 'h world \<Rightarrow> (nat, 'h) result" where
  "create_player H rec replay_bot_name adj w =
     (if \<not> is_playable (recording_heap w rec)
      then (Inl (ValueError ''Recording is not playable.''), w)
      else
        let nm = (case replay_bot_name of
                    None \<Rightarrow> create_replay_bot_name w rec
                  | Some n \<Rightarrow> n);
            created = create_bot H nm (host w);
            w1 = w\<lparr>host := snd created, trace := trace w @ [CreateBot nm]\<rparr>
        in case fst created of
             None \<Rightarrow> (Inl (ValueError ''Failed to create a replay bot.''), w1)
           | Some replay_bot_edict \<Rightarrow>
               (let w2 = w1\<lparr>trace := trace w1 @ [GetBotController replay_bot_edict]\<rparr>
                in case get_bot_controller H replay_bot_edict (host w2) of
                     None \<Rightarrow> (Inl (ValueError ''Failed to get the bot controller.''), w2)
                   | Some c \<Rightarrow>
                       (let rbot = index_from_edict H replay_bot_edict
                        in case Player_init rec c rbot adj w2 of
                             (p, w3) \<Rightarrow>
                               (Inr p, w3\<lparr>players := AList.update rbot p (players w3)\<rparr>))))"

definition get_player :: "'h Host \<Rightarrow> nat \<Rightarrow> string option \<Rightarrow> 'h world \<Rightarrow> (nat, 'h) result" where
  "get_player H rec replay_bot_name w =
     (case List.find (\<lambda>p. recording (player_heap w p) = rec) (dict_values (players w)) of
        Some p \<Rightarrow> (Inr p, w)
      | None \<Rightarrow> create_player H rec replay_bot_name True w)"

definition get_recorder :: "nat \<Rightarrow> 'h world \<Rightarrow> nat \<times> 'h world" where
  "get_recorder index w =
     (case map_of (recorders w) index of
        Some r \<Rightarrow> (r, w)
      | None \<Rightarrow>
          (case Recorder_init index w of
             (r, w1) \<Rightarrow> (r, w1\<lparr>recorders := AList.update index r (recorders w1)\<rparr>)))"

definition remove_recorder :: "nat \<Rightarrow> bool \<Rightarrow> 'h world \<Rightarrow> 'h world" where
  "remove_recorder index save w =
     (case map_of (recorders w) index of
        None \<Rightarrow> w
      | Some r \<Rightarrow>
          (let w1 = Recorder_stop save r w
           in w1\<lparr>recorders := AList.delete index (recorders w1)\<rparr>))"

text \<open>\<^verbatim>\<open>Recording.play\<close> and \<^verbatim>\<open>Recording.remove\<close> go through the manager.\<close>

definition play :: "'h Host \<Rightarrow> nat \<Rightarrow> string option \<Rightarrow> 'h world \<Rightarrow> (nat, 'h) result" where
  "play H rec replay_bot_name w =
     (case get_player H rec replay_bot_name w of
        (Inl e, w1) \<Rightarrow> (Inl e, w1)
      | (Inr p, w1) \<Rightarrow> (Inr p, Player_start H p w1))"

fun list_remove :: "('a \<Rightarrow> bool) \<Rightarrow> 'a list \<Rightarrow> 'a list option" where
  "list_remove eq [] = None"
| "list_remove eq (e # es) =
     (if eq e then Some es else map_option ((#) e) (list_remove eq es))"

definition Recording_remove :: "nat \<Rightarrow> 'h world \<Rightarrow> (unit, 'h) result" where
  "Recording_remove rec w =
     (case list_remove (\<lambda>e. e = rec \<or> Recording_eq w e rec) (mgr w) of
        None \<Rightarrow> (Inl (ValueError ''list.remove(x): x not in list''), w)
      | Some rest \<Rightarrow> (Inr (), w\<lparr>mgr := rest\<rparr>))"

section \<open>Listeners\<close>

text \<open>
  A \<^verbatim>\<open>for\<close> loop over object addresses; an exception raised by the body ends the loop
  and is propagated. \<open>ev\<close> is the trace entry written for each call.
\<close>

fun for_each ::
  "(nat \<Rightarrow> event) \<Rightarrow> (nat \<Rightarrow> 'h world \<Rightarrow> (unit, 'h) result) \<Rightarrow> nat list \<Rightarrow> 'h world \<Rightarrow>
     (unit, 'h) result" where
  "for_each ev body [] w = (Inr (), w)"
| "for_each ev body (x # xs) w =
     (case body x (w\<lparr>trace := trace w @ [ev x]\<rparr>) of
        (Inl e, w1) \<Rightarrow> (Inl e, w1)
      | (Inr u, w1) \<Rightarrow> for_each ev body xs w1)"

definition on_tick :: "'h Host \<Rightarrow> 'h world \<Rightarrow> (unit, 'h) result" where
  "on_tick H w =
     (case for_each RecorderTick (Recorder_handle_tick H) (dict_values (recorders w)) w of
        (Inl e, w1) \<Rightarrow> (Inl e, w1)
      | (Inr u, w1) \<Rightarrow>
          for_each PlayerTick (Player_handle_tick H) (dict_values (players w1)) w1)"

definition on_entity_deleted :: "bool \<Rightarrow> nat \<Rightarrow> 'h world \<Rightarrow> 'h world" where
  "on_entity_deleted is_player index w =
     (if \<not> is_player then w
      else remove_player index (remove_recorder index True w))"

section \<open>Call sequences and observations\<close>

text \<open>The part of the trace written between two worlds.\<close>

definition trace_since :: "'h world \<Rightarrow> 'h world \<Rightarrow> event list" where
  "trace_since w w' = drop (length (trace w)) (trace w')"

fun is_tick_call :: "event \<Rightarrow> bool" where
  "is_tick_call (RecorderTick r) = True"
| "is_tick_call (PlayerTick p) = True"
| "is_tick_call e = False"

fun is_correction :: "event \<Rightarrow> bool" where
  "is_correction (Teleport b pos ang vel) = True"
| "is_correction e = False"

definition tick_calls :: "event list \<Rightarrow> event list" where
  "tick_calls evs = filter is_tick_call evs"

text \<open>
  The methods of one Recorder other than \<^verbatim>\<open>start\<close>, called one after the other by a
  caller that goes on after an exception.
\<close>

datatype recorder_call = CallPause | CallResume | CallStop bool | CallHandleTick

fun Recorder_call :: "'h Host \<Rightarrow> nat \<Rightarrow> recorder_call \<Rightarrow> 'h world \<Rightarrow> 'h world" where
  "Recorder_call H r CallPause w = snd (Recorder_pause r w)"
| "Recorder_call H r CallResume w = snd (Recorder_resume r w)"
| "Recorder_call H r (CallStop save) w = Recorder_stop save r w"
| "Recorder_call H r CallHandleTick w = snd (Recorder_handle_tick H r w)"

definition Recorder_calls :: "'h Host \<Rightarrow> nat \<Rightarrow> recorder_call list \<Rightarrow> 'h world \<Rightarrow> 'h world" where
  "Recorder_calls H r cs w = fold (Recorder_call H r) cs w"

text \<open>The methods of one Player, likewise.\<close>

datatype player_call = DoStart | DoResume | DoPause | DoStop | DoHandleTick

fun Player_call :: "'h Host \<Rightarrow> nat \<Rightarrow> player_call \<Rightarrow> 'h world \<Rightarrow> 'h world" where
  "Player_call H p DoStart w = Player_start H p w"
| "Player_call H p DoResume w = Player_resume p w"
| "Player_call H p DoPause w = Player_pause p w"
| "Player_call H p DoStop w = Player_stop p w"
| "Player_call H p DoHandleTick w = snd (Player_handle_tick H p w)"

definition Player_calls :: "'h Host \<Rightarrow> nat \<Rightarrow> player_call list \<Rightarrow> 'h world \<Rightarrow> 'h world" where
  "Player_calls H p cs w = fold (Player_call H p) cs w"

text \<open>\<open>k\<close> calls of \<^verbatim>\<open>handle_tick\<close> on one Player, one per tick.\<close>

definition Player_ticks :: "'h Host \<Rightarrow> nat \<Rightarrow> nat \<Rightarrow> 'h world \<Rightarrow> 'h world" where
  "Player_ticks H p k w = Player_calls H p (replicate k DoHandleTick) w"

text \<open>The cursor of a Player addresses a snapshot of its Recording.\<close>

definition cursor_ok :: "'h world \<Rightarrow> nat \<Rightarrow> bool" where
  "cursor_ok w p =
     (0 \<le> tick (player_heap w p) \<and>
      tick (player_heap w p) <
        int (length (snapshots (recording_heap w (recording (player_heap w p))))))"

text \<open>The Players registered in the manager that play a given Recording object.\<close>

definition bound_players :: "'h world \<Rightarrow> nat \<Rightarrow> nat list" where
  "bound_players w rec =
     filter (\<lambda>p. recording (player_heap w p) = rec) (dict_values (players w))"

section \<open>The registry invariant and the calls of a front end\<close>

text \<open>
  A registered Player is in order when it and its Recording are allocated objects and
  its cursor addresses a snapshot. \<open>grows\<close> relates two worlds when the second has the
  same Player registry and the same Player objects, and no Recording has lost a snapshot.
\<close>

definition player_ok :: "'h world \<Rightarrow> nat \<Rightarrow> bool" where
  "player_ok w p =
     (p < next_ref w \<and> recording (player_heap w p) < next_ref w \<and> cursor_ok w p)"

definition players_ok :: "'h world \<Rightarrow> bool" where
  "players_ok w = list_all (player_ok w) (dict_values (players w))"

definition grows :: "'h world \<Rightarrow> 'h world \<Rightarrow> bool" where
  "grows w w' =
     (next_ref w \<le> next_ref w' \<and> players w' = players w \<and>
      (\<forall>p < next_ref w. player_heap w' p = player_heap w p) \<and>
      (\<forall>c < next_ref w. length (snapshots (recording_heap w c))
                         \<le> length (snapshots (recording_heap w' c))))"

text \<open>
  The calls open to a front end and to the host's listeners, on objects given by their
  address; a Recording handed to the manager is an allocated object.
\<close>

datatype api_call =
    GetRecorder nat
  | RecorderStart nat
  | RecorderCall nat recorder_call
  | RemoveRecorder nat bool
  | CreatePlayer nat "string option" bool
  | GetPlayer nat "string option"
  | Play nat "string option"
  | PlayerCall nat player_call
  | RemovePlayer nat
  | Tick
  | EntityDeleted bool nat

fun api :: "'h Host \<Rightarrow> api_call \<Rightarrow> 'h world \<Rightarrow> 'h world" where
  "api H (GetRecorder i) w = snd (get_recorder i w)"
| "api H (RecorderStart r) w = Recorder_start H r w"
| "api H (RecorderCall r c) w = Recorder_call H r c w"
| "api H (RemoveRecorder i save) w = remove_recorder i save w"
| "api H (CreatePlayer rec nm adj) w =
     (if rec < next_ref w then snd (create_player H rec nm adj w) else w)"
| "api H (GetPlayer rec nm) w = (if rec < next_ref w then snd (get_player H rec nm w) else w)"
| "api H (Play rec nm) w = (if rec < next_ref w then snd (play H rec nm w) else w)"
| "api H (PlayerCall p c) w = Player_call H p c w"
| "api H (RemovePlayer i) w = remove_player i w"
| "api H Tick w = snd (on_tick H w)"
| "api H (EntityDeleted b i) w = on_entity_deleted b i w"

section \<open>A small host for concrete runs\<close>

text \<open>
  A host with one position shared by all entities, which only a teleport changes, and a
  counter of the bots created so far; the n-th bot has edict, controller and index n.
\<close>

record demo =
  d_origin :: Vector
  d_bots :: nat

definition blank_cmd :: UserCmd where
  "blank_cmd =
     \<lparr>u_command_number = 0, u_tick_count = 0, u_view_angles = (0, 0, 0),
      u_forward_move = 0, u_side_move = 0, u_up_move = 0, u_buttons = 0, u_impulse = 0,
      u_weaponselect = 0, u_weaponsubtype = 0, u_random_seed = 0, u_mousedx = 0,
      u_mousedy = 0, u_has_been_predicted = False\<rparr>"

definition demo_host :: "demo Host" where
  "demo_host =
     \<lparr>time_time = (\<lambda>h. 0),
      SOURCE_ENGINE_BRANCH = ''css'',
      global_map_name = (\<lambda>h. ''de_dust2''),
      server_tick_interval = (\<lambda>h. 3 / 200),
      ent_name = (\<lambda>i h. ''Ayuto''),
      ent_steamid = (\<lambda>i h. ''STEAM_0:0:1''),
      ent_team = (\<lambda>i h. 2),
      ent_origin = (\<lambda>i h. d_origin h),
      ent_angles = (\<lambda>i h. (0, 0, 0)),
      ent_velocity = (\<lambda>i h. (0, 0, 0)),
      last_user_command = (\<lambda>i h. blank_cmd),
      run_player_move = (\<lambda>c b h. h),
      teleport = (\<lambda>b pos ang vel h. h\<lparr>d_origin := pos\<rparr>),
      set_team = (\<lambda>b t h. h),
      spawn = (\<lambda>b h. h),
      create_bot = (\<lambda>n h. (Some (Suc (d_bots h)), h\<lparr>d_bots := Suc (d_bots h)\<rparr>)),
      get_bot_controller = (\<lambda>e h. Some e),
      index_from_edict = (\<lambda>e. e)\<rparr>"

text \<open>The same host, except that every bot it creates gets index 1.\<close>

definition demo_host_same_index :: "demo Host" where
  "demo_host_same_index = demo_host\<lparr>index_from_edict := (\<lambda>e. 1)\<rparr>"

text \<open>The world when the plugin is loaded: nothing allocated, nothing registered.\<close>

definition empty_world :: "'h \<Rightarrow> 'h world" where
  "empty_world h =
     \<lparr>host = h, trace = [],
      snapshot_heap = (\<lambda>a. \<lparr>origin = (0, 0, 0), angle = (0, 0, 0), velocity = (0, 0, 0),
                              bcmd = create_bcmd_from_ucmd blank_cmd\<rparr>),
      recording_heap = (\<lambda>a. \<lparr>creation_time = 0, game = [], map_name = [], tick_interval = 0,
                               player = \<lparr>name = [], steamid = [], team = 0\<rparr>,
                               snapshots = []\<rparr>),
      recorder_heap = (\<lambda>a. \<lparr>rec_player = 0, rec_state = RecorderState.PAUSED,
                              rec_recording = None\<rparr>),
      player_heap = (\<lambda>a. \<lparr>tick = 0, recording = 0, state = PlayerState.PAUSED,
                            controller = 0, replay_bot = 0, adjust = False\<rparr>),
      next_ref = 0, mgr = [], recorders = [], players = []\<rparr>"

definition demo_loaded :: "demo world" where
  "demo_loaded = empty_world \<lparr>d_origin = (0, 0, 0), d_bots = 0\<rparr>"

text \<open>
  Client 1 asks for its Recorder (address 0) and starts it (Recording at address 1);
  two ticks later the Recording holds the Snapshots at addresses 2 and 3.
\<close>

definition demo_started :: "demo world" where
  "demo_started = Recorder_start demo_host 0 (snd (get_recorder 1 demo_loaded))"

definition demo_recorded :: "demo world" where
  "demo_recorded = snd (on_tick demo_host (snd (on_tick demo_host demo_started)))"

text \<open>The Recorder is stopped and saves; then a Player (address 4, bot 1) is created.\<close>

definition demo_saved :: "demo world" where
  "demo_saved = Recorder_stop True 0 demo_recorded"

definition demo_player :: "demo world" where
  "demo_player = snd (create_player demo_host 1 None True demo_saved)"

text \<open>
  Then the Player is started and replays its first snapshot, after which the host moves
  the bot to a point 50 units away from the recorded position.
\<close>

definition demo_drifted :: "demo world" where
  "demo_drifted =
     (let w = snd (Player_handle_tick demo_host 4 (Player_start demo_host 4 demo_player))
      in w\<lparr>host := (host w)\<lparr>d_origin := (30, 40, 0)\<rparr>\<rparr>)"

text \<open>
  Two runs in which a Recorder is started and stopped before any tick. In the first,
  client 1 saves its empty Recording (address 1) and client 2 then starts its own
  Recorder (address 2, Recording at address 3). In the second, client 1 saves its empty
  Recording and starts the same Recorder again (new Recording at address 2).
\<close>

definition demo_two_empty :: "demo world" where
  "demo_two_empty =
     (let w1 = Recorder_stop True 0 demo_started;
          w2 = snd (get_recorder 2 w1)
      in Recorder_start demo_host 2 w2)"

definition demo_restarted :: "demo world" where
  "demo_restarted = Recorder_start demo_host 0 (Recorder_stop True 0 demo_started)"

text \<open>
  The Player of the run is started. Later client 2 obtains a Recorder (address 5) and
  resumes it without ever having started it.
\<close>

definition demo_playing :: "demo world" where
  "demo_playing = Player_start demo_host 4 demo_player"

definition demo_resumed :: "demo world" where
  "demo_resumed = snd (Recorder_resume 5 (snd (get_recorder 2 demo_playing)))"

text \<open>While the Player plays, client 1 restarts its Recorder (new Recording at address 5).\<close>

definition demo_replaying :: "demo world" where
  "demo_replaying = Recorder_start demo_host 0 demo_playing"

lemmas model_defs =
  py_getitem_def dict_values_def get_distance_sqr_def replay_bcmd_def replay_location_def
  Recording_init_def is_playable_def duration_def create_snapshot_def add_snapshot_def
  Recording_eq_def Recording_in_mgr_def Player_init_def Player_update_def Player_resume_def
  Player_pause_def Player_start_def Player_stop_def played_time_def remaining_time_def
  Player_handle_tick_def Recorder_init_def Recorder_update_def Recorder_start_def
  Recorder_pause_def Recorder_resume_def Recorder_stop_def Recorder_handle_tick_def
  remove_player_def create_replay_bot_name_def create_player_def get_player_def
  get_recorder_def remove_recorder_def play_def Recording_remove_def on_tick_def
  on_entity_deleted_def trace_since_def tick_calls_def Recorder_calls_def Player_calls_def
  cursor_ok_def bound_players_def Player_ticks_def player_ok_def players_ok_def

lemmas demo_defs =
  demo_host_def demo_host_same_index_def empty_world_def demo_loaded_def demo_started_def demo_recorded_def
  demo_saved_def demo_player_def demo_drifted_def demo_two_empty_def demo_restarted_def
  demo_playing_def demo_resumed_def demo_replaying_def
  Let_def

section \<open>Basic facts\<close>

lemma py_getitem_in_range:
  "0 \<le> i \<Longrightarrow> i < int (length xs) \<Longrightarrow> py_getitem xs i = Inr (xs ! nat i)"
  by (simp add: py_getitem_def Let_def)

lemma Recorder_stop_state [simp]:
  "rec_state (recorder_heap (Recorder_stop save r w) r) = RecorderState.STOPPED"
  by (simp add: Recorder_stop_def Recorder_update_def Let_def split: option.split)

lemma Recorder_stop_recording [simp]:
  "rec_recording (recorder_heap (Recorder_stop save r w) r) = rec_recording (recorder_heap w r)"
  by (simp add: Recorder_stop_def Recorder_update_def Let_def split: option.split)

lemma Recorder_stop_mgr:
  "mgr (Recorder_stop save r w) =
     (case rec_recording (recorder_heap w r) of
        None \<Rightarrow> mgr w
      | Some cur \<Rightarrow> if save \<and> \<not> Recording_in_mgr w cur then mgr w @ [cur] else mgr w)"
  by (simp add: Recorder_stop_def Let_def Recorder_update_def Recording_in_mgr_def
      Recording_eq_def split: option.split)

lemma Recording_in_mgr_self: "x \<in> set (mgr w) \<Longrightarrow> Recording_in_mgr w x"
  by (auto simp: Recording_in_mgr_def list_ex_iff)

section \<open>Player: remaining time\<close>

text \<open>
  What the subtraction would give if \<^verbatim>\<open>played_time\<close> were called: the number of
  snapshots still to play times the tick interval.
\<close>

lemma duration_minus_played_time:
  "duration (recording_heap w (recording (player_heap w p))) - played_time w p =
     (real (length (snapshots (recording_heap w (recording (player_heap w p))))) -
      real_of_int (tick (player_heap w p))) *
     tick_interval (recording_heap w (recording (player_heap w p)))"
  by (simp add: duration_def played_time_def Let_def algebra_simps)

text \<open>
  Claim C1: for a Player that is not Stopped, \<^verbatim>\<open>remaining_time()\<close> returns the duration of
  the Recording minus the played time. The code does not: for every Player, in every
  state, the call raises TypeError, because the method \<^verbatim>\<open>played_time\<close> is subtracted
  without being called.
\<close>

theorem remaining_time_raises_TypeError: "remaining_time w p = Inl TypeError"
  by (simp add: remaining_time_def)

section \<open>Recorder: pause, resume, stop, start\<close>

text \<open>
  Claim C6: \<^verbatim>\<open>pause()\<close> and \<^verbatim>\<open>resume()\<close> of a Recorder fail exactly when the Recorder
  is Stopped, with the error "Recorder is stopped." and the world (so the Recorder's
  state) unchanged; otherwise they succeed and set the state to Paused and to Recording.
\<close>

theorem Recorder_pause_resume_stopped_iff:
  "(isl (fst (Recorder_pause r w)) \<longleftrightarrow> rec_state (recorder_heap w r) = RecorderState.STOPPED) \<and>
   (isl (fst (Recorder_resume r w)) \<longleftrightarrow> rec_state (recorder_heap w r) = RecorderState.STOPPED) \<and>
   (rec_state (recorder_heap w r) = RecorderState.STOPPED \<longrightarrow>
      Recorder_pause r w = (Inl (ValueError ''Recorder is stopped.''), w) \<and>
      Recorder_resume r w = (Inl (ValueError ''Recorder is stopped.''), w)) \<and>
   (rec_state (recorder_heap w r) \<noteq> RecorderState.STOPPED \<longrightarrow>
      fst (Recorder_pause r w) = Inr () \<and>
      recorder_heap (snd (Recorder_pause r w)) r =
        (recorder_heap w r)\<lparr>rec_state := RecorderState.PAUSED\<rparr> \<and>
      fst (Recorder_resume r w) = Inr () \<and>
      recorder_heap (snd (Recorder_resume r w)) r =
        (recorder_heap w r)\<lparr>rec_state := RECORDING\<rparr>)"
  by (simp add: Recorder_pause_def Recorder_resume_def Recorder_update_def)

text \<open>
  The Recorder of the concrete run: Stopped after the save (both calls fail and change
  nothing), Recording before it (both calls succeed).
\<close>

theorem Recorder_pause_resume_stopped_iff_witness:
  "rec_state (recorder_heap demo_saved 0) = RecorderState.STOPPED \<and>
   Recorder_pause 0 demo_saved = (Inl (ValueError ''Recorder is stopped.''), demo_saved) \<and>
   Recorder_resume 0 demo_saved = (Inl (ValueError ''Recorder is stopped.''), demo_saved) \<and>
   rec_state (recorder_heap demo_recorded 0) = RECORDING \<and>
   fst (Recorder_pause 0 demo_recorded) = Inr () \<and>
   rec_state (recorder_heap (snd (Recorder_pause 0 demo_recorded)) 0) = RecorderState.PAUSED \<and>
   fst (Recorder_resume 0 demo_recorded) = Inr () \<and>
   rec_state (recorder_heap (snd (Recorder_resume 0 demo_recorded)) 0) = RECORDING"
proof -
  have h: "rec_state (recorder_heap demo_saved 0) = RecorderState.STOPPED"
    "rec_state (recorder_heap demo_recorded 0) = RECORDING"
    by (simp_all add: model_defs demo_defs)
  from Recorder_pause_resume_stopped_iff [of 0 demo_saved]
    Recorder_pause_resume_stopped_iff [of 0 demo_recorded] h
  show ?thesis by simp
qed

text \<open>What \<^verbatim>\<open>stop\<close> does besides setting the state, in the terms of the source.\<close>

lemma Recorder_stop_no_save: "mgr (Recorder_stop False r w) = mgr w"
  by (simp add: Recorder_stop_mgr split: option.split)

lemma Recorder_stop_distinct: "distinct (mgr w) \<Longrightarrow> distinct (mgr (Recorder_stop save r w))"
  by (auto simp: Recorder_stop_mgr dest: Recording_in_mgr_self split: option.split)

lemma Recorder_stop_twice:
  "mgr (Recorder_stop save2 r (Recorder_stop True r w)) = mgr (Recorder_stop True r w)"
  apply (simp add: Recorder_stop_mgr [of save2] split: option.split)
  apply (auto simp: Recorder_stop_mgr Recording_in_mgr_def list_ex_iff Recorder_stop_def
      Let_def Recorder_update_def Recording_eq_def split: option.splits if_splits)
  done

text \<open>
  Claim C7: \<^verbatim>\<open>stop(save)\<close> always sets the state to Stopped and never raises, and
  registers the current Recording exactly when \<open>save\<close> is true, a current Recording
  exists and that Recording is not yet in the manager's list. The first part holds
  (\<open>Recorder_stop_state\<close>; the function has no failing branch), and so do the two
  consequences (\<open>Recorder_stop_twice\<close>, \<open>Recorder_stop_no_save\<close>). The equivalence does
  not: the test \<^verbatim>\<open>self.recording not in recording_mgr\<close> compares list contents, so in the
  run below the Recording at address 3, which was never registered, is not registered by
  \<^verbatim>\<open>stop(save=True)\<close>, because the manager holds another Recording that is empty too.
\<close>

theorem Recorder_stop_skips_unsaved_Recording:
  "rec_recording (recorder_heap demo_two_empty 2) = Some 3 \<and>
   mgr demo_two_empty = [1] \<and>
   mgr (Recorder_stop True 2 demo_two_empty) = [1] \<and>
   rec_state (recorder_heap (Recorder_stop True 2 demo_two_empty) 2) = RecorderState.STOPPED"
  by (simp add: model_defs demo_defs)

text \<open>
  Claim C10: since Recording inherits from list, the membership test in
  \<^verbatim>\<open>stop(save=True)\<close> is by content. If the manager's list holds a different Recording
  object whose snapshot sequence equals that of the current Recording, the current
  Recording is left out of the list, although it is not in it.
\<close>

theorem Recorder_stop_equal_content_not_registered:
  assumes "rec_recording (recorder_heap w r) = Some cur"
    and "e \<in> set (mgr w)" and "e \<noteq> cur"
    and "snapshots (recording_heap w e) = snapshots (recording_heap w cur)"
    and "cur \<notin> set (mgr w)"
  shows "mgr (Recorder_stop True r w) = mgr w \<and> cur \<notin> set (mgr (Recorder_stop True r w))"
proof -
  from assms(2,4) have "Recording_in_mgr w cur"
    by (auto simp: Recording_in_mgr_def list_ex_iff Recording_eq_def)
  with assms(1) have "mgr (Recorder_stop True r w) = mgr w"
    by (simp add: Recorder_stop_mgr)
  with assms(5) show ?thesis by simp
qed

theorem Recorder_stop_equal_content_not_registered_witness:
  "rec_recording (recorder_heap demo_restarted 0) = Some 2 \<and>
   1 \<in> set (mgr demo_restarted) \<and> (1::nat) \<noteq> 2 \<and>
   snapshots (recording_heap demo_restarted 1) = [] \<and>
   snapshots (recording_heap demo_restarted 2) = [] \<and>
   2 \<notin> set (mgr demo_restarted) \<and>
   mgr (Recorder_stop True 0 demo_restarted) = mgr demo_restarted \<and>
   2 \<notin> set (mgr (Recorder_stop True 0 demo_restarted))"
proof -
  have h: "rec_recording (recorder_heap demo_restarted 0) = Some 2"
    "1 \<in> set (mgr demo_restarted)" "(1::nat) \<noteq> 2"
    "snapshots (recording_heap demo_restarted 1) = snapshots (recording_heap demo_restarted 2)"
    "2 \<notin> set (mgr demo_restarted)"
    "snapshots (recording_heap demo_restarted 1) = []"
    by (simp_all add: model_defs demo_defs)
  from Recorder_stop_equal_content_not_registered [OF h(1-5)] h show ?thesis by simp
qed

lemma Recorder_call_stopped:
  "rec_state (recorder_heap w r) = RecorderState.STOPPED \<Longrightarrow>
   rec_state (recorder_heap (Recorder_call H r c w) r) = RecorderState.STOPPED"
  by (cases c) (simp_all add: Recorder_pause_def Recorder_resume_def Recorder_handle_tick_def)

lemma Recorder_calls_stopped:
  "rec_state (recorder_heap w r) = RecorderState.STOPPED \<Longrightarrow>
   rec_state (recorder_heap (Recorder_calls H r cs w) r) = RecorderState.STOPPED"
  unfolding Recorder_calls_def
  by (induction cs arbitrary: w) (simp_all add: Recorder_call_stopped)

lemma Recorder_start_state:
  "rec_state (recorder_heap (Recorder_start H r w) r) = RECORDING \<and>
   rec_recording (recorder_heap (Recorder_start H r w) r) = Some (next_ref w)"
  by (simp add: Recorder_start_def Recording_init_def Recorder_update_def Let_def)

text \<open>
  Claim C3, as the code has it: once a Recorder is Stopped, no sequence of
  \<^verbatim>\<open>pause\<close>, \<^verbatim>\<open>resume\<close>, \<^verbatim>\<open>stop\<close> and \<^verbatim>\<open>handle_tick\<close> calls on it changes its state, and
  \<^verbatim>\<open>pause\<close> and \<^verbatim>\<open>resume\<close> keep failing; \<^verbatim>\<open>start\<close> however restarts the same Recorder:
  it creates a fresh Recording and sets the state to Recording, from Stopped too.
\<close>

theorem Recorder_stopped_until_start:
  assumes "rec_state (recorder_heap w r) = RecorderState.STOPPED"
  shows "rec_state (recorder_heap (Recorder_calls H r cs w) r) = RecorderState.STOPPED \<and>
         isl (fst (Recorder_pause r (Recorder_calls H r cs w))) \<and>
         isl (fst (Recorder_resume r (Recorder_calls H r cs w))) \<and>
         rec_state (recorder_heap (Recorder_start H r (Recorder_calls H r cs w)) r) = RECORDING \<and>
         rec_recording (recorder_heap (Recorder_start H r (Recorder_calls H r cs w)) r) =
           Some (next_ref (Recorder_calls H r cs w))"
  using Recorder_calls_stopped [OF assms, of H cs]
  by (simp add: Recorder_start_state Recorder_pause_def Recorder_resume_def)

theorem Recorder_stopped_until_start_witness:
  "rec_state (recorder_heap demo_saved 0) = RecorderState.STOPPED \<and>
   rec_state (recorder_heap
     (Recorder_calls demo_host 0 [CallResume, CallHandleTick, CallPause, CallStop True]
        demo_saved) 0) = RecorderState.STOPPED \<and>
   rec_state (recorder_heap (Recorder_start demo_host 0
     (Recorder_calls demo_host 0 [CallResume, CallHandleTick, CallPause, CallStop True]
        demo_saved)) 0) = RECORDING"
proof -
  have h: "rec_state (recorder_heap demo_saved 0) = RecorderState.STOPPED"
    by (simp add: model_defs demo_defs)
  from Recorder_stopped_until_start
    [OF h, of demo_host "[CallResume, CallHandleTick, CallPause, CallStop True]"] h
  show ?thesis by simp
qed

text \<open>
  The claim as the specification states it (Stopped is never left on the same Recorder)
  fails: the Recorder stopped in the concrete run is Recording again after \<^verbatim>\<open>start\<close>.
\<close>

theorem Recorder_start_leaves_stopped:
  "rec_state (recorder_heap demo_saved 0) = RecorderState.STOPPED \<and>
   rec_state (recorder_heap (Recorder_start demo_host 0 demo_saved) 0) = RECORDING"
  by (simp add: model_defs demo_defs)

section \<open>Player: replaying one tick\<close>

lemma Player_handle_tick_not_playing:
  "state (player_heap w p) \<noteq> PLAYING \<Longrightarrow> Player_handle_tick H p w = (Inr (), w)"
  by (simp add: Player_handle_tick_def Let_def)

lemma Player_handle_tick_playing:
  assumes "state (player_heap w p) = PLAYING" and "cursor_ok w p"
  shows "Player_handle_tick H p w =
    (let P = player_heap w p;
         rec = recording_heap w (recording P);
         snapshot = snapshot_heap w (snapshots rec ! nat (tick P));
         w1 = replay_bcmd H snapshot (controller P) w;
         w2 = (if tick P = 0 \<or>
                  (adjust P \<and>
                   get_distance_sqr (ent_origin H (replay_bot P) (host w1)) (origin snapshot)
                     > 2500)
               then replay_location H snapshot (replay_bot P) w1 else w1)
     in if tick P < int (length (snapshots rec)) - 1
        then (Inr (), Player_update p (\<lambda>P. P\<lparr>tick := tick P + 1\<rparr>) w2)
        else (Inr (), Player_update p (\<lambda>P. P\<lparr>state := PlayerState.STOPPED\<rparr>) w2))"
  using assms
  by (simp add: Player_handle_tick_def cursor_ok_def py_getitem_in_range Let_def)

text \<open>
  Claim C4: for a Player in the Playing state whose cursor addresses a snapshot (as it
  does for every registered Player, see \<open>players_ok_reachable\<close>),
  \<^verbatim>\<open>handle_tick\<close> sends the snapshot's command to the bot's controller and then teleports
  the bot to the recorded origin, angle and velocity if and only if \<open>tick = 0\<close>, or
  \<open>adjust\<close> is set and the squared distance between the bot's position (read after the
  command) and the recorded origin is greater than 2500. A squared distance of exactly
  2500 gives no correction past tick 0; tick 0 always corrects.
\<close>

theorem Player_handle_tick_correction:
  assumes "state (player_heap w p) = PLAYING" and "cursor_ok w p"
  shows
  "(let P = player_heap w p;
        s = snapshot_heap w (snapshots (recording_heap w (recording P)) ! nat (tick P));
        moved = run_player_move H (controller P) (bcmd s) (host w);
        d = get_distance_sqr (ent_origin H (replay_bot P) moved) (origin s);
        w' = snd (Player_handle_tick H p w)
    in fst (Player_handle_tick H p w) = Inr () \<and>
       trace_since w w' =
         RunPlayerMove (controller P) (bcmd s) #
         (if tick P = 0 \<or> (adjust P \<and> d > 2500)
          then [Teleport (replay_bot P) (origin s) (angle s) (velocity s)] else []) \<and>
       host w' =
         (if tick P = 0 \<or> (adjust P \<and> d > 2500)
          then teleport H (replay_bot P) (origin s) (angle s) (velocity s) moved else moved) \<and>
       (list_ex is_correction (trace_since w w') \<longleftrightarrow> tick P = 0 \<or> (adjust P \<and> d > 2500)) \<and>
       (tick P \<noteq> 0 \<and> d = 2500 \<longrightarrow> \<not> list_ex is_correction (trace_since w w')) \<and>
       (tick P = 0 \<longrightarrow> list_ex is_correction (trace_since w w')))"
  unfolding Player_handle_tick_playing [OF assms]
  by (simp add: Let_def trace_since_def replay_bcmd_def replay_location_def Player_update_def)

text \<open>
  In the concrete run the bot stands at (30, 40, 0) at tick 1, at squared distance
  exactly 2500 from the recorded origin: the command is replayed, nothing is corrected.
  At tick 0 the same Player, standing on the recorded origin, was teleported.
\<close>

theorem Player_handle_tick_correction_witness:
  "state (player_heap demo_drifted 4) = PLAYING \<and> cursor_ok demo_drifted 4 \<and>
   tick (player_heap demo_drifted 4) = 1 \<and> adjust (player_heap demo_drifted 4) \<and>
   get_distance_sqr (ent_origin demo_host 1 (host demo_drifted))
     (origin (snapshot_heap demo_drifted 3)) = 2500 \<and>
   trace_since demo_drifted (snd (Player_handle_tick demo_host 4 demo_drifted)) =
     [RunPlayerMove 1 (bcmd (snapshot_heap demo_drifted 3))] \<and>
   trace_since demo_player
       (snd (Player_handle_tick demo_host 4 (Player_start demo_host 4 demo_player))) =
     [SetTeam 1 2, Spawn 1, RunPlayerMove 1 (bcmd (snapshot_heap demo_player 2)),
      Teleport 1 (0, 0, 0) (0, 0, 0) (0, 0, 0)]"
proof -
  have h: "state (player_heap demo_drifted 4) = PLAYING" "cursor_ok demo_drifted 4"
    by (simp_all add: model_defs demo_defs)
  have e: "tick (player_heap demo_drifted 4) = 1" "adjust (player_heap demo_drifted 4)"
    "controller (player_heap demo_drifted 4) = 1"
    "recording (player_heap demo_drifted 4) = 1"
    "snapshots (recording_heap demo_drifted 1) = [2, 3]"
    "get_distance_sqr (ent_origin demo_host 1 (host demo_drifted))
       (origin (snapshot_heap demo_drifted 3)) = 2500"
    "run_player_move demo_host 1 (bcmd (snapshot_heap demo_drifted 3)) (host demo_drifted) =
       host demo_drifted"
    "replay_bot (player_heap demo_drifted 4) = 1"
    by (simp_all add: model_defs demo_defs)
  have t: "trace_since demo_player
       (snd (Player_handle_tick demo_host 4 (Player_start demo_host 4 demo_player))) =
     [SetTeam 1 2, Spawn 1, RunPlayerMove 1 (bcmd (snapshot_heap demo_player 2)),
      Teleport 1 (0, 0, 0) (0, 0, 0) (0, 0, 0)]"
    by (simp add: model_defs demo_defs)
  from Player_handle_tick_correction [OF h, of demo_host] h e t
  show ?thesis by (simp add: Let_def)
qed

section \<open>Player: the cursor\<close>

lemma Player_handle_tick_step:
  assumes "state (player_heap w p) = PLAYING" and "cursor_ok w p"
  shows "fst (Player_handle_tick H p w) = Inr ()"
    and "recording_heap (snd (Player_handle_tick H p w)) = recording_heap w"
    and "player_heap (snd (Player_handle_tick H p w)) p =
          (if tick (player_heap w p) <
                int (length (snapshots (recording_heap w (recording (player_heap w p))))) - 1
           then (player_heap w p)\<lparr>tick := tick (player_heap w p) + 1\<rparr>
           else (player_heap w p)\<lparr>state := PlayerState.STOPPED\<rparr>)"
  unfolding Player_handle_tick_playing [OF assms]
  by (simp_all add: Let_def replay_bcmd_def replay_location_def Player_update_def)

lemma Player_call_cursor:
  assumes "cursor_ok w p"
  shows "cursor_ok (Player_call H p c w) p \<and>
         recording_heap (Player_call H p c w) = recording_heap w \<and>
         recording (player_heap (Player_call H p c w) p) = recording (player_heap w p)"
proof (cases c)
  case DoHandleTick
  show ?thesis
  proof (cases "state (player_heap w p) = PLAYING")
    case True
    from Player_handle_tick_step [OF True assms, of H] assms DoHandleTick
    show ?thesis by (auto simp: cursor_ok_def)
  next
    case False
    with assms DoHandleTick show ?thesis by (simp add: Player_handle_tick_not_playing)
  qed
qed (use assms in \<open>auto simp: cursor_ok_def Player_start_def Player_resume_def Player_pause_def
      Player_stop_def Player_update_def Let_def\<close>)

lemma Player_calls_cursor:
  "cursor_ok w p \<Longrightarrow>
   cursor_ok (Player_calls H p cs w) p \<and>
   recording_heap (Player_calls H p cs w) = recording_heap w \<and>
   recording (player_heap (Player_calls H p cs w) p) = recording (player_heap w p)"
  unfolding Player_calls_def
proof (induction cs arbitrary: w)
  case Nil
  then show ?case by simp
next
  case (Cons c cs)
  from Player_call_cursor [OF Cons.prems, of H c]
  have 1: "cursor_ok (Player_call H p c w) p"
    and 2: "recording_heap (Player_call H p c w) = recording_heap w"
    and 3: "recording (player_heap (Player_call H p c w) p) = recording (player_heap w p)"
    by simp_all
  from Cons.IH [OF 1] 2 3 show ?case by simp
qed

lemma Player_init_cursor:
  "snapshots (recording_heap w rec) \<noteq> [] \<Longrightarrow>
   cursor_ok (snd (Player_init rec c b adj w)) (fst (Player_init rec c b adj w))"
  by (simp add: Player_init_def cursor_ok_def Let_def)

lemma Player_ticks_0 [simp]: "Player_ticks H p 0 w = w"
  by (simp add: Player_ticks_def Player_calls_def)

lemma Player_ticks_Suc:
  "Player_ticks H p (Suc k) w = Player_ticks H p k (snd (Player_handle_tick H p w))"
  by (simp add: Player_ticks_def Player_calls_def)

lemma Player_ticks_stopped:
  "state (player_heap w p) = PlayerState.STOPPED \<Longrightarrow> Player_ticks H p k w = w"
  by (induction k) (simp_all add: Player_ticks_Suc Player_handle_tick_not_playing)

lemma Player_ticks_playing:
  assumes "state (player_heap w p) = PLAYING" and "cursor_ok w p"
  shows "state (player_heap (Player_ticks H p k w) p) =
           (if int k < int (length (snapshots (recording_heap w (recording (player_heap w p)))))
                       - tick (player_heap w p)
            then PLAYING else PlayerState.STOPPED) \<and>
         tick (player_heap (Player_ticks H p k w) p) =
           min (tick (player_heap w p) + int k)
               (int (length (snapshots (recording_heap w (recording (player_heap w p))))) - 1)"
  using assms
proof (induction k arbitrary: w)
  case 0
  then show ?case by (auto simp: cursor_ok_def)
next
  case (Suc k)
  let ?w1 = "snd (Player_handle_tick H p w)"
  note step = Player_handle_tick_step [OF Suc.prems, of H]
  show ?case
  proof (cases "tick (player_heap w p) <
      int (length (snapshots (recording_heap w (recording (player_heap w p))))) - 1")
    case True
    with step Suc.prems have 1: "state (player_heap ?w1 p) = PLAYING" and 2: "cursor_ok ?w1 p"
      by (auto simp: cursor_ok_def)
    from Suc.IH [OF 1 2] step True show ?thesis
      by (auto simp: Player_ticks_Suc)
  next
    case False
    with step have "state (player_heap ?w1 p) = PlayerState.STOPPED" by simp
    from Player_ticks_stopped [OF this, of H k] step False Suc.prems show ?thesis
      by (auto simp: Player_ticks_Suc cursor_ok_def)
  qed
qed

section \<open>RecordingManager: finding and creating Players\<close>

lemma find_filter_conv:
  "List.find P xs = (case filter P xs of [] \<Rightarrow> None | x # ys \<Rightarrow> Some x)"
  by (induction xs) simp_all

lemma get_player_bound:
  "bound_players w rec \<noteq> [] \<Longrightarrow> get_player H rec nm w = (Inr (hd (bound_players w rec)), w)"
  by (simp add: get_player_def bound_players_def find_filter_conv split: list.splits)

lemma get_player_unbound:
  "bound_players w rec = [] \<Longrightarrow> get_player H rec nm w = create_player H rec nm True w"
  by (simp add: get_player_def bound_players_def find_filter_conv split: list.splits)

lemma create_player_not_playable:
  "\<not> is_playable (recording_heap w rec) \<Longrightarrow>
   create_player H rec nm adj w = (Inl (ValueError ''Recording is not playable.''), w)"
  by (simp add: create_player_def)

lemma create_player_success:
  assumes "create_player H rec nm adj w = (Inr q, w')"
  shows "q = next_ref w \<and>
         player_heap w' q =
           \<lparr>tick = 0, recording = rec, state = PlayerState.PAUSED,
            controller = controller (player_heap w' q),
            replay_bot = replay_bot (player_heap w' q), adjust = adj\<rparr> \<and>
         players w' = AList.update (replay_bot (player_heap w' q)) q (players w) \<and>
         (\<forall>p. p \<noteq> q \<longrightarrow> player_heap w' p = player_heap w p) \<and>
         recording_heap w' = recording_heap w"
  using assms
  by (auto simp: create_player_def Player_init_def Let_def
      split: if_splits option.splits prod.splits)

lemma update_keeps_other:
  "k \<noteq> i \<Longrightarrow> (i, p) \<in> set d \<Longrightarrow> (i, p) \<in> set (AList.update k v d)"
  by (induction d) auto

lemma update_registers: "v \<in> set (dict_values (AList.update k v d))"
  unfolding dict_values_def by (induction d) auto

text \<open>
  Claim C2, as the code has it: when a playable Recording is already played by a
  registered Player, \<^verbatim>\<open>get_player\<close> returns the first registered Player bound to that
  Recording object (that very Player when it is the only one) and changes nothing.
  \<^verbatim>\<open>create_player\<close> does not look for it: whenever it returns a Player, that Player
  is a new object, bound to the same Recording and registered under the index of the new
  bot, and the Player object registered before is left as it was. Every registry entry
  under another index is kept, so the existing Player stays registered next to the new
  one unless the host gives the new bot the index the existing Player is registered
  under; that entry then holds the new Player.
\<close>

theorem get_player_reuses_create_player_adds:
  assumes "is_playable (recording_heap w rec)"
    and "(i, p) \<in> set (players w)" and "recording (player_heap w p) = rec"
    and "list_all (\<lambda>q. q < next_ref w) (dict_values (players w))"
  shows "bound_players w rec \<noteq> [] \<and>
         get_player H rec nm w = (Inr (hd (bound_players w rec)), w) \<and>
         (bound_players w rec = [p] \<longrightarrow> get_player H rec nm w = (Inr p, w)) \<and>
         (\<forall>q w'. create_player H rec nm adj w = (Inr q, w') \<longrightarrow>
            q = next_ref w \<and> q \<noteq> p \<and> q \<notin> set (dict_values (players w)) \<and>
            recording (player_heap w' q) = rec \<and>
            player_heap w' p = player_heap w p \<and>
            players w' = AList.update (replay_bot (player_heap w' q)) q (players w) \<and>
            q \<in> set (dict_values (players w')) \<and>
            map_of (players w') (replay_bot (player_heap w' q)) = Some q \<and>
            (\<forall>j. j \<noteq> replay_bot (player_heap w' q) \<longrightarrow>
                 map_of (players w') j = map_of (players w) j) \<and>
            (replay_bot (player_heap w' q) \<noteq> i \<longrightarrow> (i, p) \<in> set (players w')))"
proof -
  from assms(2,3) have mem: "p \<in> set (bound_players w rec)"
    by (force simp: bound_players_def dict_values_def)
  then have ne: "bound_players w rec \<noteq> []" by auto
  from assms(2) have pv: "p \<in> set (dict_values (players w))"
    by (force simp: dict_values_def)
  with assms(4) have lt: "p < next_ref w" by (simp add: list_all_iff)
  have fresh: "next_ref w \<notin> set (dict_values (players w))"
    using assms(4) by (auto simp: list_all_iff)
  have cp: "q = next_ref w \<and> q \<noteq> p \<and> q \<notin> set (dict_values (players w)) \<and>
            recording (player_heap w' q) = rec \<and>
            player_heap w' p = player_heap w p \<and>
            players w' = AList.update (replay_bot (player_heap w' q)) q (players w) \<and>
            q \<in> set (dict_values (players w')) \<and>
            map_of (players w') (replay_bot (player_heap w' q)) = Some q \<and>
            (\<forall>j. j \<noteq> replay_bot (player_heap w' q) \<longrightarrow>
                 map_of (players w') j = map_of (players w) j) \<and>
            (replay_bot (player_heap w' q) \<noteq> i \<longrightarrow> (i, p) \<in> set (players w'))"
    if "create_player H rec nm adj w = (Inr q, w')" for q w'
  proof -
    note s = create_player_success [OF that]
    from s have q: "q = next_ref w" by simp
    with lt have "q \<noteq> p" by simp
    moreover from s have "recording (player_heap w' q) = rec"
      by (metis Player.select_convs(2))
    moreover from s
    have u: "players w' = AList.update (replay_bot (player_heap w' q)) q (players w)"
      by simp
    moreover have "q \<in> set (dict_values (players w'))"
      unfolding u by (rule update_registers)
    moreover have "map_of (players w') (replay_bot (player_heap w' q)) = Some q"
      unfolding u by (simp add: update_conv')
    moreover have "\<forall>j. j \<noteq> replay_bot (player_heap w' q) \<longrightarrow>
                     map_of (players w') j = map_of (players w) j"
      unfolding u by (simp add: update_conv')
    moreover have "replay_bot (player_heap w' q) \<noteq> i \<longrightarrow> (i, p) \<in> set (players w')"
      unfolding u using assms(2) by (simp add: update_keeps_other)
    ultimately show ?thesis using s q fresh by simp
  qed
  from ne get_player_bound [OF ne, of H nm] cp show ?thesis by auto
qed

text \<open>
  In the concrete run the new bot gets index 2 and both Players are registered; with a
  host that hands out index 1 again, the entry of the Player at address 4 is overwritten.
\<close>

theorem get_player_reuses_create_player_adds_witness:
  "is_playable (recording_heap demo_player 1) \<and>
   (1, 4) \<in> set (players demo_player) \<and> recording (player_heap demo_player 4) = 1 \<and>
   list_all (\<lambda>q. q < next_ref demo_player) (dict_values (players demo_player)) \<and>
   bound_players demo_player 1 = [4] \<and>
   get_player demo_host 1 None demo_player = (Inr 4, demo_player) \<and>
   create_player demo_host 1 None True demo_player =
     (Inr 5, snd (create_player demo_host 1 None True demo_player)) \<and>
   next_ref demo_player = 5 \<and>
   players (snd (create_player demo_host 1 None True demo_player)) =
     AList.update 2 5 (players demo_player) \<and>
   (1, 4) \<in> set (players (snd (create_player demo_host 1 None True demo_player))) \<and>
   5 \<in> set (dict_values (players (snd (create_player demo_host 1 None True demo_player)))) \<and>
   create_player demo_host_same_index 1 None True demo_player =
     (Inr 5, snd (create_player demo_host_same_index 1 None True demo_player)) \<and>
   map_of (players (snd (create_player demo_host_same_index 1 None True demo_player))) 1 =
     Some 5 \<and>
   players (snd (create_player demo_host_same_index 1 None True demo_player)) = [(1, 5)]"
proof -
  have h: "is_playable (recording_heap demo_player 1)"
    "(1, 4) \<in> set (players demo_player)" "recording (player_heap demo_player 4) = 1"
    "list_all (\<lambda>q. q < next_ref demo_player) (dict_values (players demo_player))"
    by (simp_all add: model_defs demo_defs)
  have e: "bound_players demo_player 1 = [4]"
    "create_player demo_host 1 None True demo_player =
       (Inr 5, snd (create_player demo_host 1 None True demo_player))"
    "replay_bot (player_heap (snd (create_player demo_host 1 None True demo_player)) 5) = 2"
    "create_player demo_host_same_index 1 None True demo_player =
       (Inr 5, snd (create_player demo_host_same_index 1 None True demo_player))"
    "replay_bot (player_heap (snd (create_player demo_host_same_index 1 None True demo_player)) 5)
       = 1"
    "players demo_player = [(1, 4)]"
    by (simp_all add: model_defs demo_defs)
  note t1 = get_player_reuses_create_player_adds [OF h, of demo_host None True]
  note t2 = get_player_reuses_create_player_adds [OF h, of demo_host_same_index None True]
  note g = t1 [THEN conjunct2, THEN conjunct1]
  note c1 = t1 [THEN conjunct2, THEN conjunct2, THEN conjunct2, THEN spec, THEN spec, THEN mp,
    OF e(2)]
  note c2 = t2 [THEN conjunct2, THEN conjunct2, THEN conjunct2, THEN spec, THEN spec, THEN mp,
    OF e(4)]
  from c1 e(3) e(6) have a: "next_ref demo_player = 5"
    "players (snd (create_player demo_host 1 None True demo_player)) =
       AList.update 2 5 (players demo_player)"
    "(1, 4) \<in> set (players (snd (create_player demo_host 1 None True demo_player)))"
    "5 \<in> set (dict_values (players (snd (create_player demo_host 1 None True demo_player))))"
    by (simp_all add: dict_values_def)
  from c2 e(5) e(6) have b:
    "map_of (players (snd (create_player demo_host_same_index 1 None True demo_player))) 1 =
       Some 5"
    "players (snd (create_player demo_host_same_index 1 None True demo_player)) =
       AList.update 1 5 (players demo_player)"
    by (simp_all add: dict_values_def)
  from g e(1) have "get_player demo_host 1 None demo_player = (Inr 4, demo_player)" by simp
  with h e a b show ?thesis by (simp add: dict_values_def)
qed

text \<open>
  The claim as the specification states it (\<^verbatim>\<open>create_player\<close> returns the existing
  Player and registers no second one) fails: in the concrete run the Recording at
  address 1 is played by the Player at address 4, yet \<^verbatim>\<open>create_player\<close> returns a new
  Player at address 5 and the registry then holds both.
\<close>

theorem create_player_duplicates_bound_player:
  "is_playable (recording_heap demo_player 1) \<and>
   players demo_player = [(1, 4)] \<and> recording (player_heap demo_player 4) = 1 \<and>
   fst (create_player demo_host 1 None True demo_player) = Inr 5 \<and>
   players (snd (create_player demo_host 1 None True demo_player)) = [(1, 4), (2, 5)] \<and>
   recording (player_heap (snd (create_player demo_host 1 None True demo_player)) 5) = 1"
  by (simp add: model_defs demo_defs)

section \<open>The registry invariant\<close>

lemma grows_refl [simp]: "grows w w"
  by (simp add: grows_def)

lemma grows_trans: "grows w w1 \<Longrightarrow> grows w1 w2 \<Longrightarrow> grows w w2"
  unfolding grows_def by (metis (no_types, lifting) order_trans less_le_trans)

lemma grows_trace [simp]: "grows w (w\<lparr>trace := t\<rparr>)"
  by (simp add: grows_def)

lemma player_ok_grows: "player_ok w p \<Longrightarrow> grows w w' \<Longrightarrow> player_ok w' p"
  unfolding player_ok_def grows_def cursor_ok_def
  by (metis (no_types, lifting) less_le_trans of_nat_le_iff order_less_le_trans)

lemma players_ok_grows: "players_ok w \<Longrightarrow> grows w w' \<Longrightarrow> players_ok w'"
  by (auto simp: players_ok_def list_all_iff grows_def dest: player_ok_grows [unfolded grows_def])

lemma players_ok_empty: "players_ok (empty_world h)"
  by (simp add: players_ok_def empty_world_def dict_values_def)

lemma grows_get_recorder: "grows w (snd (get_recorder i w))"
  by (simp add: grows_def get_recorder_def Recorder_init_def Let_def split: option.split)

lemma grows_Recorder_start: "grows w (Recorder_start H r w)"
  by (simp add: grows_def Recorder_start_def Recording_init_def Recorder_update_def Let_def)

lemma grows_Recorder_stop: "grows w (Recorder_stop save r w)"
  by (simp add: grows_def Recorder_stop_def Recorder_update_def Let_def split: option.split)

lemma grows_Recorder_handle_tick: "grows w (snd (Recorder_handle_tick H r w))"
  by (simp add: grows_def Recorder_handle_tick_def add_snapshot_def Let_def split: option.split)

lemma grows_Recorder_call: "grows w (Recorder_call H r c w)"
  by (cases c)
    (simp_all add: grows_Recorder_stop grows_Recorder_handle_tick,
      simp_all add: grows_def Recorder_pause_def Recorder_resume_def Recorder_update_def)

lemma grows_remove_recorder: "grows w (remove_recorder i save w)"
proof (cases "map_of (recorders w) i")
  case None
  then show ?thesis by (simp add: remove_recorder_def)
next
  case (Some r)
  have "grows (Recorder_stop save r w)
          ((Recorder_stop save r w)\<lparr>recorders := AList.delete i (recorders (Recorder_stop save r w))\<rparr>)"
    by (simp add: grows_def)
  with grows_Recorder_stop [of w save r] Some show ?thesis
    by (auto simp: remove_recorder_def Let_def intro: grows_trans)
qed

lemma grows_for_each_Recorder:
  "grows w (snd (for_each ev (Recorder_handle_tick H) xs w))"
proof (induction xs arbitrary: w)
  case Nil
  show ?case by simp
next
  case (Cons x xs)
  let ?w0 = "w\<lparr>trace := trace w @ [ev x]\<rparr>"
  let ?w1 = "snd (Recorder_handle_tick H x ?w0)"
  have 1: "grows w ?w1"
    using grows_trace [of w] grows_Recorder_handle_tick [of ?w0 H x] by (rule grows_trans)
  from Cons.IH [of ?w1] have 2: "grows ?w1 (snd (for_each ev (Recorder_handle_tick H) xs ?w1))" .
  from 1 grows_trans [OF 1 2] show ?case
    by (auto split: prod.split sum.split)
qed

lemma Player_handle_tick_frame:
  "next_ref (snd (Player_handle_tick H p w)) = next_ref w \<and>
   players (snd (Player_handle_tick H p w)) = players w \<and>
   recording_heap (snd (Player_handle_tick H p w)) = recording_heap w \<and>
   (\<forall>q. q \<noteq> p \<longrightarrow> player_heap (snd (Player_handle_tick H p w)) q = player_heap w q)"
  by (simp add: Player_handle_tick_def Let_def replay_bcmd_def replay_location_def
      Player_update_def split: sum.split)

lemma Player_call_frame:
  "next_ref (Player_call H p c w) = next_ref w \<and>
   players (Player_call H p c w) = players w \<and>
   recording_heap (Player_call H p c w) = recording_heap w \<and>
   (\<forall>q. q \<noteq> p \<longrightarrow> player_heap (Player_call H p c w) q = player_heap w q)"
  by (cases c)
    (simp_all add: Player_handle_tick_frame,
      simp_all add: Player_start_def Player_resume_def Player_pause_def Player_stop_def
        Player_update_def Let_def)

lemma player_ok_Player_call:
  assumes "player_ok w q"
  shows "player_ok (Player_call H p c w) q"
proof (cases "q = p")
  case True
  with assms Player_call_cursor [of w p H c] Player_call_frame [of H p c w] show ?thesis
    by (simp add: player_ok_def)
next
  case False
  with assms Player_call_frame [of H p c w] show ?thesis
    by (simp add: player_ok_def cursor_ok_def)
qed

lemma players_ok_Player_call: "players_ok w \<Longrightarrow> players_ok (Player_call H p c w)"
  using Player_call_frame [of H p c w]
  by (simp add: players_ok_def list_all_iff player_ok_Player_call)

lemma players_ok_for_each_Player:
  "players_ok w \<Longrightarrow> players_ok (snd (for_each ev (Player_handle_tick H) xs w))"
proof (induction xs arbitrary: w)
  case Nil
  then show ?case by simp
next
  case (Cons x xs)
  let ?w0 = "w\<lparr>trace := trace w @ [ev x]\<rparr>"
  from Cons.prems have "players_ok ?w0"
    by (rule players_ok_grows) simp
  from players_ok_Player_call [OF this, of H x DoHandleTick]
  have 1: "players_ok (snd (Player_handle_tick H x ?w0))" by simp
  from 1 Cons.IH [OF 1] show ?case
    by (auto split: prod.split sum.split)
qed

lemma players_ok_on_tick: "players_ok w \<Longrightarrow> players_ok (snd (on_tick H w))"
proof -
  assume ok: "players_ok w"
  let ?l1 = "for_each RecorderTick (Recorder_handle_tick H) (dict_values (recorders w)) w"
  from ok grows_for_each_Recorder [of w RecorderTick H "dict_values (recorders w)"]
  have 1: "players_ok (snd ?l1)" by (rule players_ok_grows)
  from 1 players_ok_for_each_Player [OF 1, of PlayerTick H "dict_values (players (snd ?l1))"]
  show ?thesis
    by (auto simp: on_tick_def split: prod.split sum.split)
qed


lemma in_values_update:
  "x \<in> set (dict_values (AList.update k v d)) \<Longrightarrow> x = v \<or> x \<in> set (dict_values d)"
  unfolding dict_values_def by (induction d) (auto split: if_splits)

lemma in_values_delete:
  "x \<in> set (dict_values (AList.delete k d)) \<Longrightarrow> x \<in> set (dict_values d)"
  unfolding dict_values_def by (induction d) (auto split: if_splits)

lemma players_ok_create_player:
  assumes ok: "players_ok w" and rec: "rec < next_ref w"
  shows "players_ok (snd (create_player H rec nm adj w))"
proof (cases "fst (create_player H rec nm adj w)")
  case (Inl e)
  have "grows w (snd (create_player H rec nm adj w))"
    using Inl
    by (auto simp: create_player_def Let_def grows_def Player_init_def
        split: if_splits option.splits prod.splits)
  with ok show ?thesis by (rule players_ok_grows)
next
  case (Inr q)
  let ?w' = "snd (create_player H rec nm adj w)"
  from Inr have cp: "create_player H rec nm adj w = (Inr q, ?w')"
    by (simp add: prod_eq_iff)
  note s = create_player_success [OF cp]
  from cp have pl: "is_playable (recording_heap w rec)" and nx: "next_ref ?w' = Suc (next_ref w)"
    by (auto simp: create_player_def Let_def Player_init_def
        split: if_splits option.splits prod.splits)
  from s have q: "q = next_ref w" and hp: "recording_heap ?w' = recording_heap w" by simp_all
  from s have rq: "recording (player_heap ?w' q) = rec" and tq: "tick (player_heap ?w' q) = 0"
    by (metis Player.select_convs(2), metis Player.select_convs(1))
  have new: "player_ok ?w' q"
    using q nx rec rq tq pl hp by (simp add: player_ok_def cursor_ok_def is_playable_def)
  have old: "player_ok ?w' p" if "p \<in> set (dict_values (players w))" for p
  proof -
    from ok that have p: "player_ok w p" by (simp add: players_ok_def list_all_iff)
    then have "p \<noteq> q" using q by (simp add: player_ok_def)
    with s have "player_heap ?w' p = player_heap w p" by simp
    with p nx hp show ?thesis by (simp add: player_ok_def cursor_ok_def)
  qed
  from s have "players ?w' = AList.update (replay_bot (player_heap ?w' q)) q (players w)"
    by simp
  with new old show ?thesis
    by (auto simp: players_ok_def list_all_iff dest: in_values_update)
qed

lemma players_ok_get_player:
  "players_ok w \<Longrightarrow> rec < next_ref w \<Longrightarrow> players_ok (snd (get_player H rec nm w))"
  by (cases "bound_players w rec = []")
    (simp_all add: get_player_unbound get_player_bound players_ok_create_player)

lemma players_ok_play:
  "players_ok w \<Longrightarrow> rec < next_ref w \<Longrightarrow> players_ok (snd (play H rec nm w))"
  using players_ok_get_player [of w rec H nm]
    players_ok_Player_call [of "snd (get_player H rec nm w)" H _ DoStart]
  by (auto simp: play_def split: prod.split sum.split)

lemma players_ok_remove_player: "players_ok w \<Longrightarrow> players_ok (remove_player i w)"
proof (cases "map_of (players w) i")
  case None
  then show "players_ok w \<Longrightarrow> ?thesis" by (simp add: remove_player_def)
next
  case (Some p)
  assume "players_ok w"
  from players_ok_Player_call [OF this, of H p DoStop]
  have 1: "players_ok (Player_stop p w)" by simp
  have 2: "players (Player_stop p w) = players w"
    by (simp add: Player_stop_def Player_update_def)
  have "players_ok ((Player_stop p w)\<lparr>players := AList.delete i (players w)\<rparr>)"
    using 1 2
    by (auto simp: players_ok_def list_all_iff player_ok_def cursor_ok_def dest: in_values_delete)
  with Some 2 show ?thesis by (simp add: remove_player_def Let_def)
qed

lemma players_ok_on_entity_deleted:
  "players_ok w \<Longrightarrow> players_ok (on_entity_deleted b i w)"
  by (auto simp: on_entity_deleted_def
      intro: players_ok_remove_player players_ok_grows [OF _ grows_remove_recorder])

lemma players_ok_unbound:
  assumes "players_ok w" and "\<not> is_playable (recording_heap w rec)"
  shows "bound_players w rec = []"
proof -
  have "False" if "p \<in> set (dict_values (players w))" "recording (player_heap w p) = rec" for p
  proof -
    from assms(1) that(1) have "cursor_ok w p"
      by (simp add: players_ok_def list_all_iff player_ok_def)
    with that(2) assms(2) show False by (auto simp: cursor_ok_def is_playable_def)
  qed
  then show ?thesis by (auto simp: bound_players_def filter_empty_conv)
qed

text \<open>
  Every world reached from the empty one by such calls has all registered Players in
  order; in particular no registered Player is bound to a Recording without snapshots.
\<close>

lemma players_ok_api: "players_ok w \<Longrightarrow> players_ok (api H c w)"
  by (cases c)
    (auto simp: players_ok_create_player players_ok_get_player players_ok_play
      players_ok_Player_call players_ok_remove_player players_ok_on_tick
      players_ok_on_entity_deleted
      intro: players_ok_grows [OF _ grows_get_recorder]
        players_ok_grows [OF _ grows_Recorder_start]
        players_ok_grows [OF _ grows_Recorder_call]
        players_ok_grows [OF _ grows_remove_recorder])

lemma players_ok_reachable: "players_ok (fold (api H) cs (empty_world h))"
proof -
  have "players_ok w \<Longrightarrow> players_ok (fold (api H) cs w)" for w
    by (induction cs arbitrary: w) (simp_all add: players_ok_api)
  then show ?thesis by (simp add: players_ok_empty)
qed

lemma demo_player_reachable:
  "demo_player = fold (api demo_host)
   [GetRecorder 1, RecorderStart 0, Tick, Tick, RecorderCall 0 (CallStop True),
    CreatePlayer 1 None True] demo_loaded"
  by (simp add: model_defs demo_defs)

section \<open>Player: the cursor at all times\<close>

text \<open>
  Claim C5: for a Player of a non-empty Recording the cursor satisfies
  \<open>0 \<le> tick < len(recording)\<close>: it does when the Player is constructed, every
  sequence of \<^verbatim>\<open>start\<close>, \<^verbatim>\<open>resume\<close>, \<^verbatim>\<open>pause\<close>, \<^verbatim>\<open>stop\<close> and \<^verbatim>\<open>handle_tick\<close>
  calls keeps it, and it holds for every registered Player of every world reached from
  the empty one. From the Playing state at tick \<open>t\<close> of \<open>n\<close> snapshots, \<open>k\<close> ticks
  lead to tick \<open>t + k\<close>, still Playing, while \<open>k < n - t\<close>, and to the Stopped state
  with tick \<open>n - 1\<close> for every \<open>k \<ge> n - t\<close>; a tick on a Stopped Player changes
  nothing at all.
\<close>

theorem Player_cursor_bounded:
  "(snapshots (recording_heap w rec) \<noteq> [] \<longrightarrow>
      cursor_ok (snd (Player_init rec c b adj w)) (fst (Player_init rec c b adj w))) \<and>
   (cursor_ok w p \<longrightarrow> cursor_ok (Player_calls H p cs w) p) \<and>
   list_all (cursor_ok (fold (api H) calls (empty_world h)))
     (dict_values (players (fold (api H) calls (empty_world h)))) \<and>
   (cursor_ok w p \<and> state (player_heap w p) = PLAYING \<longrightarrow>
      (let n = int (length (snapshots (recording_heap w (recording (player_heap w p)))));
           t = tick (player_heap w p);
           w' = Player_ticks H p k w
       in (int k < n - t \<longrightarrow>
             state (player_heap w' p) = PLAYING \<and> tick (player_heap w' p) = t + int k) \<and>
          (n - t \<le> int k \<longrightarrow>
             state (player_heap w' p) = PlayerState.STOPPED \<and> tick (player_heap w' p) = n - 1))) \<and>
   (state (player_heap w p) = PlayerState.STOPPED \<longrightarrow> Player_handle_tick H p w = (Inr (), w))"
proof (intro conjI impI)
  assume "snapshots (recording_heap w rec) \<noteq> []"
  then show "cursor_ok (snd (Player_init rec c b adj w)) (fst (Player_init rec c b adj w))"
    by (rule Player_init_cursor)
next
  assume "cursor_ok w p"
  then show "cursor_ok (Player_calls H p cs w) p"
    by (simp add: Player_calls_cursor)
next
  from players_ok_reachable [of H calls h]
  show "list_all (cursor_ok (fold (api H) calls (empty_world h)))
     (dict_values (players (fold (api H) calls (empty_world h))))"
    by (simp add: players_ok_def player_ok_def list_all_iff)
next
  assume a: "cursor_ok w p \<and> state (player_heap w p) = PLAYING"
  then have ok: "cursor_ok w p" and pl: "state (player_heap w p) = PLAYING" by simp_all
  from Player_ticks_playing [OF pl ok, of H k] show
    "let n = int (length (snapshots (recording_heap w (recording (player_heap w p)))));
         t = tick (player_heap w p);
         w' = Player_ticks H p k w
     in (int k < n - t \<longrightarrow>
           state (player_heap w' p) = PLAYING \<and> tick (player_heap w' p) = t + int k) \<and>
        (n - t \<le> int k \<longrightarrow>
           state (player_heap w' p) = PlayerState.STOPPED \<and> tick (player_heap w' p) = n - 1)"
    by (auto simp: Let_def)
next
  assume "state (player_heap w p) = PlayerState.STOPPED"
  then show "Player_handle_tick H p w = (Inr (), w)"
    by (simp add: Player_handle_tick_not_playing)
qed

theorem Player_cursor_bounded_witness:
  "snapshots (recording_heap demo_saved 1) \<noteq> [] \<and>
   cursor_ok (snd (Player_init 1 1 1 True demo_saved)) (fst (Player_init 1 1 1 True demo_saved)) \<and>
   cursor_ok demo_playing 4 \<and> state (player_heap demo_playing 4) = PLAYING \<and>
   cursor_ok (Player_calls demo_host 4 [DoHandleTick, DoPause, DoStop, DoStart] demo_playing) 4 \<and>
   state (player_heap (Player_ticks demo_host 4 1 demo_playing) 4) = PLAYING \<and>
   tick (player_heap (Player_ticks demo_host 4 1 demo_playing) 4) = 1 \<and>
   state (player_heap (Player_ticks demo_host 4 2 demo_playing) 4) = PlayerState.STOPPED \<and>
   tick (player_heap (Player_ticks demo_host 4 2 demo_playing) 4) = 1 \<and>
   state (player_heap (Player_ticks demo_host 4 5 demo_playing) 4) = PlayerState.STOPPED \<and>
   tick (player_heap (Player_ticks demo_host 4 5 demo_playing) 4) = 1 \<and>
   Player_handle_tick demo_host 4 (Player_ticks demo_host 4 2 demo_playing) =
     (Inr (), Player_ticks demo_host 4 2 demo_playing) \<and>
   list_all (cursor_ok demo_player) (dict_values (players demo_player)) \<and>
   dict_values (players demo_player) = [4]"
proof -
  have r: "fold (api demo_host)
      [GetRecorder 1, RecorderStart 0, Tick, Tick, RecorderCall 0 (CallStop True),
       CreatePlayer 1 None True] (empty_world \<lparr>d_origin = (0, 0, 0), d_bots = 0\<rparr>) = demo_player"
    "dict_values (players demo_player) = [4]"
    by (simp_all add: model_defs demo_defs)
  have h: "snapshots (recording_heap demo_saved 1) \<noteq> []"
    "cursor_ok demo_playing 4" "state (player_heap demo_playing 4) = PLAYING"
    "tick (player_heap demo_playing 4) = 0"
    "recording (player_heap demo_playing 4) = 1"
    "length (snapshots (recording_heap demo_playing 1)) = 2"
    by (simp_all add: model_defs demo_defs)
  note t = Player_cursor_bounded [where w = demo_playing and p = 4 and H = demo_host]
  have s: "state (player_heap (Player_ticks demo_host 4 2 demo_playing) 4) = PlayerState.STOPPED"
    using t [where k = 2] h by (simp add: Let_def)
  from Player_cursor_bounded [where w = demo_saved and rec = 1 and c = 1 and b = 1 and adj = True]
    t [where k = 1 and cs = "[DoHandleTick, DoPause, DoStop, DoStart]"]
    t [where k = 2] t [where k = 5]
    Player_cursor_bounded [where w = "Player_ticks demo_host 4 2 demo_playing" and p = 4
      and H = demo_host]
    Player_cursor_bounded [where H = demo_host and h = "\<lparr>d_origin = (0, 0, 0), d_bots = 0\<rparr>"
      and calls = "[GetRecorder 1, RecorderStart 0, Tick, Tick, RecorderCall 0 (CallStop True),
       CreatePlayer 1 None True]"] h s r
  show ?thesis by (simp add: Let_def)
qed

section \<open>RecordingManager: Recordings that are not playable\<close>

text \<open>
  Claim C8: a Recording is not playable exactly when it holds no snapshot. For such a
  Recording \<^verbatim>\<open>create_player\<close> fails with "Recording is not playable." and leaves the
  world as it was: no bot is requested from the host, no Player is registered. So does
  \<^verbatim>\<open>Recording.play\<close> whenever it gets to create the Player, that is, when no
  registered Player is bound to the Recording; this is the case in every world in which
  the registered Players are in order, hence in every reachable world.
\<close>

theorem not_playable_no_player:
  "(is_playable R \<longleftrightarrow> snapshots R \<noteq> []) \<and>
   (\<not> is_playable (recording_heap w rec) \<longrightarrow>
      create_player H rec nm adj w = (Inl (ValueError ''Recording is not playable.''), w) \<and>
      (bound_players w rec = [] \<or> players_ok w \<longrightarrow>
         play H rec nm w = (Inl (ValueError ''Recording is not playable.''), w)))"
  by (auto simp: is_playable_def create_player_not_playable play_def get_player_unbound
      dest: players_ok_unbound)

text \<open>
  In the concrete run the Recording at address 5 is empty while the Player at address 4
  plays the Recording at address 1.
\<close>

theorem not_playable_no_player_witness:
  "\<not> is_playable (recording_heap demo_replaying 5) \<and>
   snapshots (recording_heap demo_replaying 5) = [] \<and>
   players_ok demo_replaying \<and> players demo_replaying = [(1, 4)] \<and>
   bound_players demo_replaying 5 = [] \<and>
   create_player demo_host 5 None True demo_replaying =
     (Inl (ValueError ''Recording is not playable.''), demo_replaying) \<and>
   play demo_host 5 None demo_replaying =
     (Inl (ValueError ''Recording is not playable.''), demo_replaying)"
proof -
  have h: "\<not> is_playable (recording_heap demo_replaying 5)"
    "bound_players demo_replaying 5 = []" "players_ok demo_replaying"
    "players demo_replaying = [(1, 4)]"
    by (simp_all add: model_defs demo_defs)
  from not_playable_no_player
    [of "recording_heap demo_replaying 5" demo_replaying 5 demo_host None True] h
  show ?thesis by simp
qed

section \<open>The tick listener\<close>

lemma Recorder_handle_tick_keeps:
  "trace (snd (Recorder_handle_tick H r w)) = trace w \<and>
   players (snd (Recorder_handle_tick H r w)) = players w"
  by (simp add: Recorder_handle_tick_def add_snapshot_def Let_def split: option.split)

lemma Player_handle_tick_trace:
  "\<exists>evs. trace (snd (Player_handle_tick H p w)) = trace w @ evs \<and> tick_calls evs = []"
  by (simp add: Player_handle_tick_def Let_def replay_bcmd_def replay_location_def
      Player_update_def tick_calls_def split: sum.split)

lemma for_each_calls:
  assumes body: "\<And>x w. \<exists>evs. trace (snd (body x w)) = trace w @ evs \<and> tick_calls evs = []"
    and ev: "\<And>x. is_tick_call (ev x)"
  shows "\<exists>evs n. trace (snd (for_each ev body xs w)) = trace w @ evs \<and>
           tick_calls evs = map ev (take n xs) \<and>
           (fst (for_each ev body xs w) = Inr () \<longrightarrow> n = length xs)"
proof (induction xs arbitrary: w)
  case Nil
  show ?case by (simp add: tick_calls_def)
next
  case (Cons x xs)
  let ?w0 = "w\<lparr>trace := trace w @ [ev x]\<rparr>"
  obtain r w1 where b: "body x ?w0 = (r, w1)" by (cases "body x ?w0")
  from body [of x ?w0] b obtain e1 where
    e1: "trace w1 = trace w @ ev x # e1" "tick_calls e1 = []" by auto
  show ?case
  proof (cases r)
    case (Inl err)
    with b e1 ev [of x] have
      "trace (snd (for_each ev body (x # xs) w)) = trace w @ (ev x # e1) \<and>
       tick_calls (ev x # e1) = map ev (take 1 (x # xs)) \<and>
       (fst (for_each ev body (x # xs) w) = Inr () \<longrightarrow> 1 = length (x # xs))"
      by (simp add: tick_calls_def)
    then show ?thesis by blast
  next
    case (Inr u)
    from Cons.IH [of w1] obtain e2 n where
      e2: "trace (snd (for_each ev body xs w1)) = trace w1 @ e2"
        "tick_calls e2 = map ev (take n xs)"
        "fst (for_each ev body xs w1) = Inr () \<longrightarrow> n = length xs" by blast
    with b e1 ev [of x] Inr have
      "trace (snd (for_each ev body (x # xs) w)) = trace w @ (ev x # e1 @ e2) \<and>
       tick_calls (ev x # e1 @ e2) = map ev (take (Suc n) (x # xs)) \<and>
       (fst (for_each ev body (x # xs) w) = Inr () \<longrightarrow> Suc n = length (x # xs))"
      by (simp add: tick_calls_def)
    then show ?thesis by blast
  qed
qed

lemma for_each_failed:
  "fst (for_each ev body xs w) \<noteq> Inr () \<Longrightarrow> isl (fst (for_each ev body xs w))"
  by (cases "fst (for_each ev body xs w)") simp_all

lemma for_each_Recorder_players:
  "players (snd (for_each ev (Recorder_handle_tick H) xs w)) = players w"
proof (induction xs arbitrary: w)
  case Nil
  show ?case by simp
next
  case (Cons x xs)
  let ?w0 = "w\<lparr>trace := trace w @ [ev x]\<rparr>"
  from Recorder_handle_tick_keeps [of H x ?w0] Cons.IH [of "snd (Recorder_handle_tick H x ?w0)"]
  show ?case by (auto split: prod.split sum.split)
qed

text \<open>
  Claim C9: within one call of the tick listener, the \<^verbatim>\<open>handle_tick\<close> calls are those of
  the registered Recorders, in registry order, followed by those of the registered
  Players, in registry order. A Player is called only after every Recorder has been
  called, and when the listener returns normally every Recorder and every Player has
  been called once. (A call that raises ends the listener; the calls made so far are a
  prefix of that sequence.)
\<close>

theorem on_tick_recorders_before_players:
  "\<exists>n m. tick_calls (trace_since w (snd (on_tick H w))) =
            map RecorderTick (take n (dict_values (recorders w))) @
            map PlayerTick (take m (dict_values (players w))) \<and>
          (m \<noteq> 0 \<longrightarrow> length (dict_values (recorders w)) \<le> n) \<and>
          (fst (on_tick H w) = Inr () \<longrightarrow>
             n = length (dict_values (recorders w)) \<and> m = length (dict_values (players w)))"
proof -
  let ?R = "dict_values (recorders w)"
  let ?P = "dict_values (players w)"
  let ?l1 = "for_each RecorderTick (Recorder_handle_tick H) ?R w"
  obtain r1 w1 where l1: "?l1 = (r1, w1)" by (cases ?l1)
  have "\<exists>evs n. trace (snd ?l1) = trace w @ evs \<and>
           tick_calls evs = map RecorderTick (take n ?R) \<and>
           (fst ?l1 = Inr () \<longrightarrow> n = length ?R)"
    by (rule for_each_calls) (simp_all add: Recorder_handle_tick_keeps tick_calls_def)
  with l1 obtain e1 n where e1: "trace w1 = trace w @ e1"
    "tick_calls e1 = map RecorderTick (take n ?R)" "r1 = Inr () \<longrightarrow> n = length ?R"
    by auto
  from for_each_Recorder_players [of RecorderTick H ?R w] l1
  have pl: "players w1 = players w" by simp
  show ?thesis
  proof (cases r1)
    case (Inl err)
    with l1 e1 have
      "tick_calls (trace_since w (snd (on_tick H w))) =
         map RecorderTick (take n ?R) @ map PlayerTick (take 0 ?P) \<and>
       ((0::nat) \<noteq> 0 \<longrightarrow> length ?R \<le> n) \<and>
       (fst (on_tick H w) = Inr () \<longrightarrow> n = length ?R \<and> 0 = length ?P)"
      by (simp add: on_tick_def trace_since_def)
    then show ?thesis by blast
  next
    case (Inr u)
    let ?l2 = "for_each PlayerTick (Player_handle_tick H) ?P w1"
    have "\<exists>evs m. trace (snd ?l2) = trace w1 @ evs \<and>
           tick_calls evs = map PlayerTick (take m ?P) \<and>
           (fst ?l2 = Inr () \<longrightarrow> m = length ?P)"
      by (rule for_each_calls) (simp_all add: Player_handle_tick_trace)
    then obtain e2 m where e2: "trace (snd ?l2) = trace w1 @ e2"
      "tick_calls e2 = map PlayerTick (take m ?P)" "fst ?l2 = Inr () \<longrightarrow> m = length ?P"
      by blast
    from Inr e1 have n: "n = length ?R" by simp
    from l1 Inr pl have ot: "on_tick H w = ?l2" by (simp add: on_tick_def)
    from e1 e2 n ot have
      "tick_calls (trace_since w (snd (on_tick H w))) =
         map RecorderTick (take n ?R) @ map PlayerTick (take m ?P) \<and>
       (m \<noteq> 0 \<longrightarrow> length ?R \<le> n) \<and>
       (fst (on_tick H w) = Inr () \<longrightarrow> n = length ?R \<and> m = length ?P)"
      by (simp add: trace_since_def tick_calls_def)
    then show ?thesis by blast
  qed
qed

text \<open>
  In the concrete run the Recorder at address 0 is called before the Player at address
  4. With a Recorder that was resumed but never started the listener fails in the first
  loop, and no Player is called.
\<close>

theorem on_tick_recorders_before_players_witness:
  "fst (on_tick demo_host demo_playing) = Inr () \<and>
   tick_calls (trace_since demo_playing (snd (on_tick demo_host demo_playing))) =
     [RecorderTick 0, PlayerTick 4] \<and>
   fst (on_tick demo_host demo_resumed) = Inl AttributeError \<and>
   tick_calls (trace_since demo_resumed (snd (on_tick demo_host demo_resumed))) =
     [RecorderTick 0, RecorderTick 5]"
proof -
  have h: "fst (on_tick demo_host demo_playing) = Inr ()"
    "dict_values (recorders demo_playing) = [0]" "dict_values (players demo_playing) = [4]"
    by (simp_all add: model_defs demo_defs)
  have g: "fst (on_tick demo_host demo_resumed) = Inl AttributeError"
    "tick_calls (trace_since demo_resumed (snd (on_tick demo_host demo_resumed))) =
       [RecorderTick 0, RecorderTick 5]"
    by (simp_all add: model_defs demo_defs)
  from on_tick_recorders_before_players [of demo_playing demo_host] obtain n m where
    "tick_calls (trace_since demo_playing (snd (on_tick demo_host demo_playing))) =
       map RecorderTick (take n (dict_values (recorders demo_playing))) @
       map PlayerTick (take m (dict_values (players demo_playing)))"
    "fst (on_tick demo_host demo_playing) = Inr () \<longrightarrow>
       n = length (dict_values (recorders demo_playing)) \<and>
       m = length (dict_values (players demo_playing))"
    by blast
  with h g show ?thesis by simp
qed

end
